theory Spec2Isabelle
  imports Main
begin

section \<open>Python values used by the task prioritizer\<close>

text \<open>
  The development embeds \<^verbatim>\<open>task_prioritizer.py\<close> (duration parsing, the resolution of a
  task's calendar window, the ledger of processed e-mail ids and the main loop).
  Exceptions are values: a function that can raise returns \<open>py_error + 'a\<close>.
  \<open>Raised\<close> stands for whatever exception a remote collaborator throws.
  The module is taken as loaded: its imports and the configuration checks of lines
  28-33 have succeeded, and the file system accepts the writes to the ledger.
\<close>

datatype py_error = NameError | AttributeError | ValueError | OverflowError | Raised string

subsection \<open>Characters and strings\<close>

text \<open>
  Strings are lists of HOL characters, read as code points below 256. On these,
  \<^verbatim>\<open>str.isspace\<close> (used by \<^verbatim>\<open>str.strip()\<close> and by the pattern \<^verbatim>\<open>\s\<close>) holds for
  09-0D, 1C-1F, 20, 85 and A0, and \<^verbatim>\<open>\d\<close> holds for the ten ASCII digits.
\<close>

definition LF :: char where
  "LF = CHR 0x0A"

definition CR :: char where
  "CR = CHR 0x0D"

definition whitespace :: "char list" where
  "whitespace = [CHR 0x09, CHR 0x0A, CHR 0x0B, CHR 0x0C, CHR 0x0D, CHR 0x1C, CHR 0x1D,
                 CHR 0x1E, CHR 0x1F, CHR 0x20, CHR 0x85, CHR 0xA0]"

definition isspace :: "char \<Rightarrow> bool" where
  "isspace c = (c \<in> set whitespace)"

definition isdigit :: "char \<Rightarrow> bool" where
  "isdigit c = (c \<in> set ''0123456789'')"

definition lstrip :: "string \<Rightarrow> string" where
  "lstrip s = dropWhile isspace s"

definition rstrip :: "string \<Rightarrow> string" where
  "rstrip s = rev (dropWhile isspace (rev s))"

definition strip :: "string \<Rightarrow> string" where
  "strip s = rstrip (lstrip s)"

definition lower_char :: "char \<Rightarrow> char" where
  "lower_char c =
     (let n = (of_char c :: nat)
      in if (65 \<le> n \<and> n \<le> 90) \<or> (192 \<le> n \<and> n \<le> 222 \<and> n \<noteq> 215) then char_of (n + 32) else c)"

definition lower :: "string \<Rightarrow> string" where
  "lower s = map lower_char s"

text \<open>\<^verbatim>\<open>p in s\<close> for strings: \<open>p\<close> occurs in \<open>s\<close> as a contiguous piece.\<close>

fun py_in :: "string \<Rightarrow> string \<Rightarrow> bool" where
  "py_in p [] = (p = [])"
| "py_in p (c # cs) = (take (length p) (c # cs) = p \<or> py_in p cs)"

text \<open>
  Truthiness of an optional string: \<^verbatim>\<open>None\<close> and \<^verbatim>\<open>""\<close> are false. \<open>nonempty\<close> returns the
  string when the Python test \<^verbatim>\<open>if s:\<close> succeeds.
\<close>

definition nonempty :: "string option \<Rightarrow> string option" where
  "nonempty so = (case so of None \<Rightarrow> None | Some s \<Rightarrow> if s = [] then None else Some s)"

subsection \<open>Durations, dates and timestamps\<close>

text \<open>
  A \<^verbatim>\<open>timedelta\<close> is its total number of microseconds. A \<^verbatim>\<open>date\<close> is its proleptic
  Gregorian ordinal (\<^verbatim>\<open>date.toordinal()\<close>): 1 is 0001-01-01 and \<open>date_max\<close> is 9999-12-31.
  A \<^verbatim>\<open>datetime\<close> is the ordinal of its date, the microseconds since midnight and the
  optional UTC offset it carries (kept but never inspected by the code).
  Python raises \<^verbatim>\<open>OverflowError\<close> when an addition leaves the range of dates; so do
  \<open>date_add\<close> and \<open>datetime_add\<close>.
\<close>

type_synonym timedelta = int

definition us_per_hour :: int where
  "us_per_hour = 3600000000"

definition us_per_day :: int where
  "us_per_day = 86400000000"

definition minutes :: "int \<Rightarrow> timedelta" where
  "minutes n = n * 60000000"

definition hours :: "int \<Rightarrow> timedelta" where
  "hours n = n * us_per_hour"

definition days :: "int \<Rightarrow> timedelta" where
  "days n = n * us_per_day"

text \<open>The constructor \<^verbatim>\<open>timedelta(...)\<close> accepts at most 999999999 days in either direction.\<close>

definition timedelta :: "int \<Rightarrow> py_error + timedelta" where
  "timedelta us =
     (if - (999999999 * us_per_day) \<le> us \<and> us < 1000000000 * us_per_day then Inr us
      else Inl OverflowError)"

definition date_max :: int where
  "date_max = 3652059"

record datetime =
  dt_day :: int
  dt_us :: int
  tzinfo :: "int option"

datatype pydate = Date int | DateTime datetime

definition date_add :: "int \<Rightarrow> timedelta \<Rightarrow> py_error + int" where
  "date_add d td =
     (let ordinal = d + td div us_per_day
      in if 1 \<le> ordinal \<and> ordinal \<le> date_max then Inr ordinal else Inl OverflowError)"

definition datetime_add :: "datetime \<Rightarrow> timedelta \<Rightarrow> py_error + datetime" where
  "datetime_add dt td =
     (let total = dt_us dt + td;
          ordinal = dt_day dt + total div us_per_day
      in if 1 \<le> ordinal \<and> ordinal \<le> date_max
         then Inr (dt\<lparr>dt_day := ordinal, dt_us := total mod us_per_day\<rparr>)
         else Inl OverflowError)"

text \<open>\<^verbatim>\<open>datetime.combine(d, t)\<close> for a naive time of day \<open>t\<close>, and \<^verbatim>\<open>time(h, 0)\<close>.\<close>

definition combine :: "int \<Rightarrow> int \<Rightarrow> datetime" where
  "combine d t = \<lparr>dt_day = d, dt_us = t, tzinfo = None\<rparr>"

definition time_of_day :: "int \<Rightarrow> int" where
  "time_of_day h = h * us_per_hour"

definition hour :: "datetime \<Rightarrow> int" where
  "hour dt = dt_us dt div us_per_hour"

text \<open>A value is a proper Python object when it lies in the type's range.\<close>

definition valid_date :: "int \<Rightarrow> bool" where
  "valid_date d = (1 \<le> d \<and> d \<le> date_max)"

definition valid_datetime :: "datetime \<Rightarrow> bool" where
  "valid_datetime dt = (valid_date (dt_day dt) \<and> 0 \<le> dt_us dt \<and> dt_us dt < us_per_day)"

section \<open>Duration parsing\<close>

text \<open>
  The names bound at module level in \<^verbatim>\<open>task_prioritizer.py\<close>: the imports of lines 1-16,
  the configuration constants and the functions. The module \<^verbatim>\<open>re\<close> is not among them
  and is no builtin, so evaluating the name \<^verbatim>\<open>re\<close> raises \<^verbatim>\<open>NameError\<close>.
\<close>

definition module_globals :: "string list" where
  "module_globals =
     [''os'', ''mimetypes'', ''load_dotenv'', ''datetime'', ''timedelta'', ''date'', ''time'',
      ''List'', ''Optional'', ''GmailClient'', ''GoogleCalendarClient'', ''OCRService'',
      ''LLMTaskParserService'', ''Task'', ''BASE_DIR'', ''DOWNLOAD_ATTACHMENTS_DIR'',
      ''PROCESSED_EMAIL_IDS_LOG'', ''REMARKABLE_SENDER_EMAIL'', ''REMARKABLE_SUBJECT_KEYWORD'',
      ''PYTESSERACT_CMD_PATH'', ''OPENAI_API_KEY'', ''CALENDAR_TIMEZONE'',
      ''load_processed_email_ids'', ''save_processed_email_id'', ''process_content_for_tasks'',
      ''parse_duration_string'', ''create_calendar_events_from_tasks'', ''main'']"

definition global_name :: "string \<Rightarrow> py_error + unit" where
  "global_name n = (if n \<in> set module_globals then Inr () else Inl NameError)"

text \<open>
  \<^verbatim>\<open>re.match(r'(\d+)\s*(min(?:ute)?s?|h(?:our)?s?)', s)\<close> as the standard library computes
  it: the match is anchored at the start of \<open>s\<close>; every digit run shorter than the
  longest one is followed by a digit and every shorter run of spaces by a space, so
  backtracking cannot help and the match exists exactly when the longest digit run is
  not empty and what follows the spaces starts with \<^verbatim>\<open>min\<close> or \<^verbatim>\<open>h\<close>. The result holds
  groups 1 and 2.
\<close>

definition optional_piece :: "string \<Rightarrow> string \<Rightarrow> string" where
  "optional_piece p s = (if take (length p) s = p then p else [])"

definition unit_token :: "string \<Rightarrow> string \<Rightarrow> string \<Rightarrow> string" where
  "unit_token stem middle s =
     (let r1 = drop (length stem) s;
          m = optional_piece middle r1;
          r2 = drop (length m) r1
      in stem @ m @ optional_piece ''s'' r2)"

definition re_match_duration :: "string \<Rightarrow> (string \<times> string) option" where
  "re_match_duration s =
     (let digits = takeWhile isdigit s;
          rest = dropWhile isspace (dropWhile isdigit s)
      in if digits = [] then None
         else if take 3 rest = ''min'' then Some (digits, unit_token ''min'' ''ute'' rest)
         else if take 1 rest = ''h'' then Some (digits, unit_token ''h'' ''our'' rest)
         else None)"

definition int_of_digits :: "string \<Rightarrow> int" where
  "int_of_digits ds = foldl (\<lambda>a c. 10 * a + (of_char c - 48)) 0 ds"

text \<open>
  \<^verbatim>\<open>parse_duration_string\<close>, lines 64-82. A falsy argument returns the default before
  the name \<^verbatim>\<open>re\<close> is needed; every other argument reaches line 72, where the name is
  looked up.
\<close>

definition parse_duration_string :: "string option \<Rightarrow> py_error + timedelta" where
  "parse_duration_string duration_str =
     (case nonempty duration_str of
        None \<Rightarrow> Inr (hours 1)
      | Some s \<Rightarrow>
          (let duration_str = lower s
           in case global_name ''re'' of
                Inl e \<Rightarrow> Inl e
              | Inr _ \<Rightarrow>
                  (case re_match_duration duration_str of
                     Some (digits, unit) \<Rightarrow>
                       (let v = int_of_digits digits
                        in if py_in ''min'' unit then timedelta (minutes v)
                           else if py_in ''h'' unit then timedelta (hours v)
                           else Inr (hours 1))
                   | None \<Rightarrow>
                       (if py_in ''flexible'' duration_str then Inr (hours 1)
                        else Inr (hours 1)))))"

section \<open>Tasks and calendar windows\<close>

text \<open>
  \<^verbatim>\<open>Task\<close> comes from a model module outside the sources; the fields are the ones
  \<^verbatim>\<open>create_calendar_events_from_tasks\<close> reads. \<^verbatim>\<open>dueDate\<close> is \<^verbatim>\<open>None\<close>, a
  \<^verbatim>\<open>datetime.date\<close> or a \<^verbatim>\<open>datetime.datetime\<close> (line 103).
\<close>

record Task =
  task :: string
  priority :: string
  dueDate :: "pydate option"
  suggestedTimeOfDay :: "string option"
  suggestedDuration :: "string option"
  source_line :: string
  line_number :: "int option"

text \<open>
  The arguments of one \<^verbatim>\<open>calendar_client.create_event\<close> call. The description is an
  f-string over the priority, the source line, the line number and today's date; it is
  kept as these four components.
\<close>

record event =
  ev_summary :: string
  ev_priority :: string
  ev_source_line :: string
  ev_line_number :: "int option"
  ev_processed_on :: int
  ev_start :: pydate
  ev_end :: pydate
  ev_timezone :: string

text \<open>
  The code has no all-day flag: it hands \<^verbatim>\<open>create_event\<close> either two dates (an all-day
  event) or two datetimes. The flag of a window is read off the type of its start.
\<close>

definition isAllDay :: "pydate \<times> pydate \<Rightarrow> bool" where
  "isAllDay win = (case fst win of Date _ \<Rightarrow> True | DateTime _ \<Rightarrow> False)"

section \<open>The world outside the program\<close>

text \<open>
  What a run reads and changes: the ledger file \<^verbatim>\<open>processed_emails.log\<close> (\<open>None\<close> when it
  does not exist), the system clock and the calendar. The clock is the sequence of its
  future readings; every \<^verbatim>\<open>date.today()\<close> and \<^verbatim>\<open>datetime.now()\<close> takes the next one.
  The calendar records each \<^verbatim>\<open>create_event\<close> call that returned, with the value returned.
\<close>

record world =
  ledger_file :: "string option"
  clock :: "nat \<Rightarrow> datetime"
  clock_reads :: nat
  calendar :: "(event \<times> bool) list"

text \<open>
  The collaborators, as the answers they give: the Gmail client (whose methods wrap
  remote calls), the calendar client, the OCR service, the task parser, and the library
  functions \<^verbatim>\<open>os.path.splitext(p)[1].lower()\<close>, \<^verbatim>\<open>mimetypes.guess_type(p)[0]\<close> and
  \<^verbatim>\<open>datetime.fromisoformat\<close> (\<open>None\<close> for its \<^verbatim>\<open>ValueError\<close>). \<open>'m\<close> is the type of a
  retrieved message. \<open>search_messages\<close> is the answer to the run's fixed query.
\<close>

record 'm env =
  gmail_service :: bool
  calendar_service :: bool
  search_messages :: "py_error + string list"
  get_message :: "string \<Rightarrow> py_error + 'm option"
  download_attachments :: "'m \<Rightarrow> py_error + string list"
  splitext_lower :: "string \<Rightarrow> string"
  guess_type :: "string \<Rightarrow> string option"
  extract_text_from_pdf :: "string \<Rightarrow> py_error + string option"
  extract_text_from_image :: "string \<Rightarrow> py_error + string option"
  parse_text_for_tasks :: "string \<Rightarrow> py_error + Task list"
  create_event :: "event \<Rightarrow> py_error + bool"
  mark_message_as_read :: "string \<Rightarrow> py_error + bool"
  fromisoformat :: "string \<Rightarrow> datetime option"

definition datetime_now :: "world \<Rightarrow> datetime \<times> world" where
  "datetime_now w = (clock w (clock_reads w), w\<lparr>clock_reads := Suc (clock_reads w)\<rparr>)"

definition date_today :: "world \<Rightarrow> int \<times> world" where
  "date_today w = (dt_day (clock w (clock_reads w)), w\<lparr>clock_reads := Suc (clock_reads w)\<rparr>)"

section \<open>Resolving the window of a task\<close>

text \<open>
  A start with the parsed duration added (lines 124-125, 134-135 and 148-149). Neither
  the \<^verbatim>\<open>NameError\<close> of the parser nor the \<^verbatim>\<open>OverflowError\<close> of the addition is a
  \<^verbatim>\<open>ValueError\<close>, so both leave the \<^verbatim>\<open>try\<close> blocks of lines 129 and 146.
\<close>

definition timed_window :: "datetime \<Rightarrow> string option \<Rightarrow> py_error + pydate \<times> pydate" where
  "timed_window start llm_suggested_duration_str =
     (case parse_duration_string llm_suggested_duration_str of
        Inl e \<Rightarrow> Inl e
      | Inr duration_td \<Rightarrow>
          (case datetime_add start duration_td of
             Inl e \<Rightarrow> Inl e
           | Inr end_datetime \<Rightarrow> Inr (DateTime start, DateTime end_datetime)))"

text \<open>The all-day window of lines 138-139 and 142-143.\<close>

definition all_day_window :: "int \<Rightarrow> py_error + pydate \<times> pydate" where
  "all_day_window explicit_due_date =
     (case date_add explicit_due_date (days 1) of
        Inl e \<Rightarrow> Inl e
      | Inr end_date \<Rightarrow> Inr (Date explicit_due_date, Date end_date))"

text \<open>
  The default slot, written twice in the source (lines 153-157 and 161-165): today at
  9:00, or tomorrow at 9:00 from 17:00 on, for one hour. It reads the clock two or
  three times.
\<close>

definition slot_on :: "int \<Rightarrow> py_error + pydate \<times> pydate" where
  "slot_on event_date =
     (let start = combine event_date (time_of_day 9)
      in case datetime_add start (hours 1) of
           Inl e \<Rightarrow> Inl e
         | Inr end_datetime \<Rightarrow> Inr (DateTime start, DateTime end_datetime))"

definition default_slot :: "world \<Rightarrow> (py_error + pydate \<times> pydate) \<times> world" where
  "default_slot w =
     (let (event_date, w1) = date_today w;
          (now, w2) = datetime_now w1
      in if 17 \<le> hour now
         then (let (today, w3) = date_today w2
               in case date_add today (days 1) of
                    Inl e \<Rightarrow> (Inl e, w3)
                  | Inr tomorrow \<Rightarrow> (slot_on tomorrow, w3))
         else (slot_on event_date, w2))"

text \<open>
  Lines 117-165 of the loop body: the start and end chosen for one task. For the three
  kinds of \<^verbatim>\<open>dueDate\<close> a start is always assigned (dates and datetimes are truthy), so
  the test of line 168 succeeds.
\<close>

definition resolve_window :: "'m env \<Rightarrow> Task \<Rightarrow> world \<Rightarrow> (py_error + pydate \<times> pydate) \<times> world" where
  "resolve_window env t w =
     (case dueDate t of
        Some (DateTime explicit_due_date) \<Rightarrow>
          (timed_window explicit_due_date (suggestedDuration t), w)
      | Some (Date explicit_due_date) \<Rightarrow>
          (case nonempty (suggestedTimeOfDay t) of
             Some llm_suggested_datetime_str \<Rightarrow>
               (case fromisoformat env llm_suggested_datetime_str of
                  Some llm_dt \<Rightarrow>
                    (timed_window (combine explicit_due_date (dt_us llm_dt)) (suggestedDuration t), w)
                | None \<Rightarrow> (all_day_window explicit_due_date, w))
           | None \<Rightarrow> (all_day_window explicit_due_date, w))
      | None \<Rightarrow>
          (case nonempty (suggestedTimeOfDay t) of
             Some llm_suggested_datetime_str \<Rightarrow>
               (case fromisoformat env llm_suggested_datetime_str of
                  Some start \<Rightarrow> (timed_window start (suggestedDuration t), w)
                | None \<Rightarrow> default_slot w)
           | None \<Rightarrow> default_slot w))"

section \<open>Adding the tasks of an e-mail to the calendar\<close>

text \<open>
  One iteration of the loop of lines 100-177. A run that raises stops there: the result
  is the exception, if any, and the world as the run left it. The value that
  \<^verbatim>\<open>create_event\<close> returns is dropped by the code; it is only recorded in the world.
\<close>

definition add_task :: "'m env \<Rightarrow> string \<Rightarrow> Task \<Rightarrow> world \<Rightarrow> py_error option \<times> world" where
  "add_task env timezone t w =
     (let (today, w0) = date_today w
      in case resolve_window env t w0 of
           (Inl e, w1) \<Rightarrow> (Some e, w1)
         | (Inr (start, finish), w1) \<Rightarrow>
             (let ev = \<lparr>ev_summary = task t, ev_priority = priority t,
                        ev_source_line = source_line t, ev_line_number = line_number t,
                        ev_processed_on = today, ev_start = start, ev_end = finish,
                        ev_timezone = timezone\<rparr>
              in case create_event env ev of
                   Inl e \<Rightarrow> (Some e, w1)
                 | Inr created \<Rightarrow> (None, w1\<lparr>calendar := calendar w1 @ [(ev, created)]\<rparr>)))"

fun add_tasks :: "'m env \<Rightarrow> string \<Rightarrow> Task list \<Rightarrow> world \<Rightarrow> py_error option \<times> world" where
  "add_tasks env timezone [] w = (None, w)"
| "add_tasks env timezone (t # ts) w =
     (case add_task env timezone t w of
        (Some e, w1) \<Rightarrow> (Some e, w1)
      | (None, w1) \<Rightarrow> add_tasks env timezone ts w1)"

definition create_calendar_events_from_tasks ::
  "'m env \<Rightarrow> Task list \<Rightarrow> string \<Rightarrow> world \<Rightarrow> py_error option \<times> world" where
  "create_calendar_events_from_tasks env tasks timezone w =
     (if tasks = [] then (None, w)
      else if \<not> calendar_service env then (None, w)
      else add_tasks env timezone tasks w)"

section \<open>The ledger of processed e-mails\<close>

text \<open>
  The file is opened in text mode, so reading translates \<^verbatim>\<open>\r\n\<close> and \<^verbatim>\<open>\r\<close> to
  \<^verbatim>\<open>\n\<close> (universal newlines); iterating over the file yields the pieces that end at
  each \<^verbatim>\<open>\n\<close>, terminator included, and a last piece without terminator when the
  file does not end in one.
\<close>

fun universal_newlines :: "string \<Rightarrow> string" where
  "universal_newlines [] = []"
| "universal_newlines [c] = (if c = CR then [LF] else [c])"
| "universal_newlines (c # d # cs) =
     (if c = CR \<and> d = LF then LF # universal_newlines cs
      else if c = CR then LF # universal_newlines (d # cs)
      else c # universal_newlines (d # cs))"

fun file_lines :: "string \<Rightarrow> string list" where
  "file_lines [] = []"
| "file_lines (c # cs) =
     (if c = LF then [LF] # file_lines cs
      else (case file_lines cs of [] \<Rightarrow> [[c]] | l # ls \<Rightarrow> (c # l) # ls))"

definition ids_in :: "string \<Rightarrow> string list" where
  "ids_in content = filter (\<lambda>l. l \<noteq> []) (map strip (file_lines (universal_newlines content)))"

definition load_processed_email_ids :: "world \<Rightarrow> string set" where
  "load_processed_email_ids w =
     (case ledger_file w of None \<Rightarrow> {} | Some content \<Rightarrow> set (ids_in content))"

text \<open>Mode \<^verbatim>\<open>'a'\<close> creates a missing file and writes at the end of an existing one.\<close>

definition save_processed_email_id :: "string \<Rightarrow> world \<Rightarrow> world" where
  "save_processed_email_id email_id w =
     w\<lparr>ledger_file := Some ((case ledger_file w of None \<Rightarrow> [] | Some content \<Rightarrow> content)
                              @ email_id @ [LF])\<rparr>"

section \<open>The main loop\<close>

definition process_content_for_tasks :: "'m env \<Rightarrow> string \<Rightarrow> py_error + Task list" where
  "process_content_for_tasks env extracted_text =
     (if extracted_text \<noteq> [] \<and> strip extracted_text \<noteq> []
      then parse_text_for_tasks env extracted_text
      else Inr [])"

text \<open>The loop over the downloaded attachments, lines 238-256, collecting the tasks.\<close>

fun tasks_from_attachments :: "'m env \<Rightarrow> string list \<Rightarrow> py_error + Task list" where
  "tasks_from_attachments env [] = Inr []"
| "tasks_from_attachments env (attachment_path # paths) =
     (let file_ext = splitext_lower env attachment_path;
          mime_type = guess_type env attachment_path
      in case (if file_ext = ''.pdf'' then extract_text_from_pdf env attachment_path
               else if (case mime_type of None \<Rightarrow> False | Some m \<Rightarrow> take 6 m = ''image/'')
               then extract_text_from_image env attachment_path
               else Inr None) of
           Inl e \<Rightarrow> Inl e
         | Inr extracted_text \<Rightarrow>
             (case (case nonempty extracted_text of
                      Some text \<Rightarrow> process_content_for_tasks env text
                    | None \<Rightarrow> Inr []) of
                Inl e \<Rightarrow> Inl e
              | Inr tasks_from_attachment \<Rightarrow>
                  (case tasks_from_attachments env paths of
                     Inl e \<Rightarrow> Inl e
                   | Inr later_tasks \<Rightarrow> Inr (tasks_from_attachment @ later_tasks))))"

text \<open>
  The attributes that the class \<^verbatim>\<open>GmailClient\<close> of \<^verbatim>\<open>google_gmail_client.py\<close> defines.
  Line 259 asks the class for \<^verbatim>\<open>get_email_body_text\<close>, which is not one of them: an
  e-mail without attachments raises \<^verbatim>\<open>AttributeError\<close> there, and lines 260-265 are
  never reached.
\<close>

definition GmailClient_attributes :: "string list" where
  "GmailClient_attributes =
     [''_instance'', ''DEFAULT_SCOPES'', ''__new__'', ''__init__'', ''_authenticate'',
      ''search_messages'', ''get_message'', ''download_attachments'', ''mark_message_as_read'',
      ''move_message_to_label'']"

definition tasks_from_body :: "py_error + Task list" where
  "tasks_from_body =
     (if ''get_email_body_text'' \<in> set GmailClient_attributes then Inr [] else Inl AttributeError)"

text \<open>Lines 236-265: the tasks of an e-mail, from its attachments or else from its body.\<close>

definition collect_tasks :: "'m env \<Rightarrow> string list \<Rightarrow> py_error + Task list" where
  "collect_tasks env downloaded_paths =
     (if downloaded_paths \<noteq> [] then tasks_from_attachments env downloaded_paths
      else tasks_from_body)"

text \<open>
  One iteration of the loop of lines 219-275. \<^verbatim>\<open>continue\<close> is the result \<open>(None, w)\<close>.
  Only the download is guarded by \<^verbatim>\<open>try\<close>; any other exception ends the run.
\<close>

definition process_message :: "'m env \<Rightarrow> string \<Rightarrow> string \<Rightarrow> world \<Rightarrow> py_error option \<times> world" where
  "process_message env timezone msg_id w =
     (case get_message env msg_id of
        Inl e \<Rightarrow> (Some e, w)
      | Inr None \<Rightarrow> (None, w)
      | Inr (Some message) \<Rightarrow>
          (case download_attachments env message of
             Inl e \<Rightarrow> (None, w)
           | Inr downloaded_paths \<Rightarrow>
               (case collect_tasks env downloaded_paths of
                  Inl e \<Rightarrow> (Some e, w)
                | Inr all_tasks_from_email \<Rightarrow>
                    (if all_tasks_from_email \<noteq> [] then
                       (case create_calendar_events_from_tasks env all_tasks_from_email timezone w of
                          (Some e, w1) \<Rightarrow> (Some e, w1)
                        | (None, w1) \<Rightarrow>
                            (case mark_message_as_read env msg_id of
                               Inl e \<Rightarrow> (Some e, w1)
                             | Inr True \<Rightarrow> (None, save_processed_email_id msg_id w1)
                             | Inr False \<Rightarrow> (None, w1)))
                     else (None, w)))))"

fun process_messages :: "'m env \<Rightarrow> string \<Rightarrow> string list \<Rightarrow> world \<Rightarrow> py_error option \<times> world" where
  "process_messages env timezone [] w = (None, w)"
| "process_messages env timezone (msg_id # ids) w =
     (case process_message env timezone msg_id w of
        (Some e, w1) \<Rightarrow> (Some e, w1)
      | (None, w1) \<Rightarrow> process_messages env timezone ids w1)"

text \<open>Line 212: the candidates that the ledger, as read at the start of the run, lacks.\<close>

definition new_message_ids :: "string list \<Rightarrow> world \<Rightarrow> string list" where
  "new_message_ids message_ids w =
     filter (\<lambda>msg_id. msg_id \<notin> load_processed_email_ids w) message_ids"

definition main :: "'m env \<Rightarrow> string \<Rightarrow> world \<Rightarrow> py_error option \<times> world" where
  "main env timezone w =
     (if \<not> gmail_service env then (None, w)
      else if \<not> calendar_service env then (None, w)
      else (case search_messages env of
              Inl e \<Rightarrow> (Some e, w)
            | Inr message_ids \<Rightarrow>
                (if new_message_ids message_ids w = [] then (None, w)
                 else process_messages env timezone (new_message_ids message_ids w) w)))"

section \<open>Notions used in the statements\<close>

text \<open>
  A ledger file is terminated when it is empty or ends with a newline, as every file
  that \<open>save_processed_email_id\<close> has written does. An id is clean when it holds no
  line break (\<^verbatim>\<open>\n\<close> or \<^verbatim>\<open>\r\<close>, both of which end a line for the reader) and no
  white space at either end.
\<close>

definition terminated :: "string \<Rightarrow> bool" where
  "terminated content = (content = [] \<or> last content = LF)"

definition ledger_terminated :: "world \<Rightarrow> bool" where
  "ledger_terminated w =
     (case ledger_file w of None \<Rightarrow> True | Some content \<Rightarrow> terminated content)"

definition clean_id :: "string \<Rightarrow> bool" where
  "clean_id i = (LF \<notin> set i \<and> CR \<notin> set i \<and> strip i = i)"

text \<open>
  The exception of a call, if it raised one. \<open>core\<close> is what two worlds share when they
  differ at most in the values that \<^verbatim>\<open>create_event\<close> returned. An e-mail is
  \<open>committable\<close> when its processing can reach line 270: it is retrieved, its download
  returns, it yields at least one task, adding the tasks to the calendar ends without
  exception in some world, and it is marked as read. \<open>event_of_task\<close> tells the calls
  of \<^verbatim>\<open>create_event\<close> that are made for a task, whatever window was resolved for it.
\<close>

definition raised :: "py_error + 'a \<Rightarrow> py_error option" where
  "raised r = (case r of Inl e \<Rightarrow> Some e | Inr _ \<Rightarrow> None)"

definition core :: "world \<Rightarrow> string option \<times> (nat \<Rightarrow> datetime) \<times> nat \<times> event list" where
  "core w = (ledger_file w, clock w, clock_reads w, map fst (calendar w))"

definition committable :: "'m env \<Rightarrow> string \<Rightarrow> string \<Rightarrow> bool" where
  "committable env timezone i =
     (mark_message_as_read env i = Inr True \<and>
      (\<exists>m ps ts. get_message env i = Inr (Some m) \<and> download_attachments env m = Inr ps \<and>
         collect_tasks env ps = Inr ts \<and> ts \<noteq> [] \<and>
         (\<exists>w. fst (create_calendar_events_from_tasks env ts timezone w) = None)))"

definition event_of_task :: "string \<Rightarrow> Task \<Rightarrow> event \<Rightarrow> bool" where
  "event_of_task timezone t ev =
     (ev_summary ev = task t \<and> ev_priority ev = priority t \<and>
      ev_source_line ev = source_line t \<and> ev_line_number ev = line_number t \<and>
      ev_timezone ev = timezone)"

subsection \<open>Example inputs\<close>

text \<open>
  Monday 2025-01-06 has ordinal 739257. \<open>world_at d h\<close> has no ledger file, an empty
  calendar and a clock that stands at \<open>h\<close> o'clock on day \<open>d\<close>.
\<close>

definition world_at :: "int \<Rightarrow> int \<Rightarrow> world" where
  "world_at d h =
     \<lparr>ledger_file = None, clock = (\<lambda>_. combine d (time_of_day h)), clock_reads = 0,
      calendar = []\<rparr>"

definition plain_task :: Task where
  "plain_task =
     \<lparr>task = ''Call Bob'', priority = ''High'', dueDate = None, suggestedTimeOfDay = None,
      suggestedDuration = None, source_line = ''call bob'', line_number = Some 1\<rparr>"

definition meeting_task :: Task where
  "meeting_task =
     plain_task\<lparr>dueDate := Some (DateTime (combine 739257 (time_of_day 10))),
                suggestedTimeOfDay := Some ''2025-01-07T15:00:00'',
                suggestedDuration := Some ''30 minutes''\<rparr>"

definition report_task :: Task where
  "report_task =
     plain_task\<lparr>dueDate := Some (Date 739257), suggestedTimeOfDay := Some ''not-a-date''\<rparr>"

text \<open>
  One unread e-mail \<^verbatim>\<open>m1\<close> with one PDF whose text the parser turns into \<open>tasks\<close>;
  \<open>created\<close> is what \<^verbatim>\<open>create_event\<close> returns and \<open>marked\<close> what
  \<^verbatim>\<open>mark_message_as_read\<close> returns.
\<close>

definition example_env :: "Task list \<Rightarrow> bool \<Rightarrow> bool \<Rightarrow> unit env" where
  "example_env tasks created marked =
     \<lparr>gmail_service = True, calendar_service = True, search_messages = Inr [''m1''],
      get_message = (\<lambda>_. Inr (Some ())), download_attachments = (\<lambda>_. Inr [''note.pdf'']),
      splitext_lower = (\<lambda>_. ''.pdf''), guess_type = (\<lambda>_. Some ''application/pdf''),
      extract_text_from_pdf = (\<lambda>_. Inr (Some ''call bob'')),
      extract_text_from_image = (\<lambda>_. Inr None),
      parse_text_for_tasks = (\<lambda>_. Inr tasks), create_event = (\<lambda>_. Inr created),
      mark_message_as_read = (\<lambda>_. Inr marked),
      fromisoformat = (\<lambda>s. if s = ''2025-01-07T15:00:00''
                              then Some (combine 739258 (time_of_day 15)) else None)\<rparr>"

text \<open>
  The same e-mail with two tasks, where \<^verbatim>\<open>create_event\<close> succeeds for the first and
  reports failure for the second.
\<close>

definition rent_task :: Task where
  "rent_task = plain_task\<lparr>task := ''Pay rent'', source_line := ''pay rent'', line_number := Some 2\<rparr>"

definition partial_failure_env :: "unit env" where
  "partial_failure_env =
     (example_env [plain_task, rent_task] True True)
       \<lparr>create_event := (\<lambda>ev. Inr (ev_summary ev \<noteq> ''Pay rent''))\<rparr>"

text \<open>
  The same e-mail and tasks, where \<^verbatim>\<open>create_event\<close> succeeds for the first task and
  raises for the second, and marking the e-mail as read would succeed.
\<close>

definition raising_env :: "unit env" where
  "raising_env =
     (example_env [plain_task, rent_task] True True)
       \<lparr>create_event := (\<lambda>ev. if ev_summary ev = ''Pay rent'' then Inl (Raised ''HttpError'')
                               else Inr True)\<rparr>"

section \<open>Properties of the duration parser\<close>

lemma parse_duration_string_falsy:
  "nonempty d = None \<Longrightarrow> parse_duration_string d = Inr (hours 1)"
  by (simp add: parse_duration_string_def)

lemma parse_duration_string_raises:
  "nonempty d = Some s \<Longrightarrow> parse_duration_string d = Inl NameError"
  by (simp add: parse_duration_string_def global_name_def module_globals_def)

text \<open>
  C7 (the parser never raises and always returns a positive duration; unparseable text
  gives one hour): the code does not do this. The unparseable text \<^verbatim>\<open>gibberish\<close> is not
  empty, so line 72 is reached and the unbound name \<^verbatim>\<open>re\<close> raises \<^verbatim>\<open>NameError\<close>.
\<close>

theorem parse_duration_string_gibberish_raises:
  "parse_duration_string (Some ''gibberish'') = Inl NameError"
  by (simp add: parse_duration_string_def nonempty_def global_name_def module_globals_def)

text \<open>
  C8 (a quantity followed by a unit token is returned in that unit): the code does not
  do this. \<^verbatim>\<open>45 minutes\<close> raises \<^verbatim>\<open>NameError\<close> at line 72 like every other text that
  is not empty, although the pattern of that line would match it with the groups
  \<^verbatim>\<open>45\<close> and \<^verbatim>\<open>minutes\<close>.
\<close>

theorem parse_duration_string_45_minutes_raises:
  "parse_duration_string (Some ''45 minutes'') = Inl NameError
   \<and> re_match_duration (lower ''45 minutes'') = Some (''45'', ''minutes'')"
  by (simp add: parse_duration_string_def nonempty_def global_name_def module_globals_def
      re_match_duration_def unit_token_def optional_piece_def isdigit_def isspace_def
      whitespace_def lower_def lower_char_def Let_def)

section \<open>Properties of the ledger\<close>

lemma isspace_LF: "isspace LF"
  by (simp add: isspace_def whitespace_def LF_def)

lemma CR_neq_LF: "CR \<noteq> LF"
  by (simp add: CR_def LF_def)

lemma rstrip_prefix: "\<exists>zs. s = rstrip s @ zs \<and> (\<forall>z\<in>set zs. isspace z)"
proof -
  have "rev s = takeWhile isspace (rev s) @ dropWhile isspace (rev s)" by simp
  then have "s = rev (dropWhile isspace (rev s)) @ rev (takeWhile isspace (rev s))"
    by (metis rev_append rev_rev_ident)
  moreover have "\<forall>z\<in>set (rev (takeWhile isspace (rev s))). isspace z"
    by (auto dest: set_takeWhileD)
  ultimately show ?thesis unfolding rstrip_def by blast
qed

lemma rstrip_idem: "rstrip (rstrip s) = rstrip s"
  by (simp add: rstrip_def)

lemma lstrip_rstrip_fixed:
  assumes "dropWhile isspace a = a"
  shows "dropWhile isspace (rstrip a) = rstrip a"
proof (cases "rstrip a")
  case Nil
  then show ?thesis by simp
next
  case (Cons x xs)
  obtain zs where a: "a = rstrip a @ zs" using rstrip_prefix by blast
  then have "a = x # (xs @ zs)" using Cons by simp
  with assms have "\<not> isspace x"
    by (metis dropWhile_eq_Cons_conv)
  then show ?thesis using Cons by simp
qed

lemma strip_idem: "strip (strip s) = strip s"
proof -
  have "dropWhile isspace (dropWhile isspace s) = dropWhile isspace s" by simp
  then have "lstrip (rstrip (lstrip s)) = rstrip (lstrip s)"
    unfolding lstrip_def by (rule lstrip_rstrip_fixed)
  then show ?thesis by (simp add: strip_def rstrip_idem)
qed

lemma strip_snoc_space: "isspace c \<Longrightarrow> strip (s @ [c]) = strip s"
proof -
  assume c: "isspace c"
  show ?thesis
  proof (cases "\<forall>x\<in>set s. isspace x")
    case True
    then have "\<forall>x\<in>set (s @ [c]). isspace x" using c by simp
    then have d1: "dropWhile isspace (s @ [c]) = []"
      by (simp only: dropWhile_eq_Nil_conv)
    have d2: "dropWhile isspace s = []"
      using True by (simp only: dropWhile_eq_Nil_conv)
    show ?thesis by (simp only: strip_def lstrip_def rstrip_def d1 d2)
  next
    case False
    then obtain x where "x \<in> set s" "\<not> isspace x" by blast
    then have "dropWhile isspace (s @ [c]) = dropWhile isspace s @ [c]"
      by (rule dropWhile_append1)
    then show ?thesis using c by (simp add: strip_def lstrip_def rstrip_def)
  qed
qed

lemma file_lines_single: "LF \<notin> set s \<Longrightarrow> file_lines (s @ [LF]) = [s @ [LF]]"
  by (induction s) auto

lemma universal_newlines_id: "CR \<notin> set s \<Longrightarrow> universal_newlines s = s"
  by (induction s rule: universal_newlines.induct) auto

lemma universal_newlines_append:
  "terminated a \<Longrightarrow> universal_newlines (a @ b) = universal_newlines a @ universal_newlines b"
proof (induction a rule: universal_newlines.induct)
  case 1
  then show ?case by simp
next
  case (2 c)
  then have "c = LF" by (simp add: terminated_def)
  then show ?case using CR_neq_LF by (cases b) auto
next
  case (3 c d cs)
  then show ?case by (auto simp: terminated_def split: if_splits)
qed

lemma universal_newlines_Nil: "universal_newlines s = [] \<longleftrightarrow> s = []"
  by (induction s rule: universal_newlines.induct) auto

lemma universal_newlines_terminated: "terminated a \<Longrightarrow> terminated (universal_newlines a)"
proof (induction a rule: universal_newlines.induct)
  case 1
  then show ?case by simp
next
  case (2 c)
  then show ?case by (simp add: terminated_def)
next
  case (3 c d cs)
  then show ?case by (auto simp: terminated_def universal_newlines_Nil split: if_splits)
qed

lemma file_lines_append:
  "terminated a \<Longrightarrow> file_lines (a @ b) = file_lines a @ file_lines b"
proof (induction a)
  case Nil
  then show ?case by simp
next
  case (Cons c a)
  show ?case
  proof (cases "a = []")
    case True
    with Cons.prems have "c = LF" by (simp add: terminated_def)
    with True show ?thesis by simp
  next
    case False
    with Cons.prems have "terminated a" by (simp add: terminated_def)
    then have ih: "file_lines (a @ b) = file_lines a @ file_lines b" by (rule Cons.IH)
    from False have "file_lines a \<noteq> []" by (cases a) (auto split: list.splits)
    then show ?thesis using ih by (auto split: list.splits)
  qed
qed

lemma ids_in_append: "terminated a \<Longrightarrow> ids_in (a @ b) = ids_in a @ ids_in b"
  by (simp add: ids_in_def universal_newlines_append file_lines_append
      universal_newlines_terminated)

lemma ids_in_clean: "clean_id i \<Longrightarrow> ids_in (i @ [LF]) = (if i = [] then [] else [i])"
proof -
  assume c: "clean_id i"
  then have "CR \<notin> set (i @ [LF])" using CR_neq_LF by (simp add: clean_id_def)
  then have "universal_newlines (i @ [LF]) = i @ [LF]" by (rule universal_newlines_id)
  moreover have "file_lines (i @ [LF]) = [i @ [LF]]"
    using c by (simp add: clean_id_def file_lines_single)
  moreover have "strip (i @ [LF]) = i"
    using c by (simp add: clean_id_def strip_snoc_space isspace_LF)
  ultimately show ?thesis by (simp add: ids_in_def)
qed

lemma load_save:
  "ledger_terminated w \<Longrightarrow>
   load_processed_email_ids (save_processed_email_id i w) =
     load_processed_email_ids w \<union> set (ids_in (i @ [LF]))"
  by (cases "ledger_file w")
    (simp_all add: ledger_terminated_def load_processed_email_ids_def save_processed_email_id_def
      ids_in_append Un_commute)

lemma save_terminated: "ledger_terminated (save_processed_email_id i w)"
  by (simp add: ledger_terminated_def save_processed_email_id_def terminated_def)

lemma loaded_ids_stripped: "x \<in> load_processed_email_ids w \<Longrightarrow> strip x = x \<and> x \<noteq> []"
  by (auto simp: load_processed_email_ids_def ids_in_def strip_idem split: option.splits)

lemma load_save_repeat:
  "ledger_terminated w \<Longrightarrow>
   load_processed_email_ids ((save_processed_email_id i ^^ Suc n) w) =
     load_processed_email_ids (save_processed_email_id i w)"
proof (induction n)
  case 0
  then show ?case by simp
next
  case (Suc n)
  have t: "ledger_terminated ((save_processed_email_id i ^^ Suc n) w)"
    by (simp add: save_terminated)
  have "load_processed_email_ids ((save_processed_email_id i ^^ Suc (Suc n)) w) =
        load_processed_email_ids ((save_processed_email_id i ^^ Suc n) w) \<union> set (ids_in (i @ [LF]))"
    using load_save [OF t] by simp
  also have "\<dots> = load_processed_email_ids (save_processed_email_id i w) \<union> set (ids_in (i @ [LF]))"
    using Suc by simp
  also have "\<dots> = load_processed_email_ids (save_processed_email_id i w)"
    using load_save [OF Suc.prems] by auto
  finally show ?case .
qed

text \<open>
  C10 (round trip and set semantics of the ledger). The ledger file is missing, empty
  or ends with a newline, which is how the program leaves it. Then (1) an id that is
  not empty, holds no line break and equals its own strip is in the set loaded after it
  was saved; (2) an id whose strip is empty is in no loaded set, whatever the file
  holds; (3) saving an id \<open>n + 1\<close> times loads the same set as saving it once. In (1)
  the empty id is left to (2), and a line break is \<^verbatim>\<open>\n\<close> or \<^verbatim>\<open>\r\<close>: the file is read
  in text mode, where both end a line.
\<close>

theorem ledger_round_trip:
  assumes "ledger_terminated w"
  shows "(i \<noteq> [] \<and> LF \<notin> set i \<and> CR \<notin> set i \<and> strip i = i
            \<longrightarrow> i \<in> load_processed_email_ids (save_processed_email_id i w))
         \<and> (strip j = [] \<longrightarrow> j \<notin> load_processed_email_ids w')
         \<and> load_processed_email_ids ((save_processed_email_id i ^^ Suc n) w) =
             load_processed_email_ids (save_processed_email_id i w)"
proof (intro conjI impI)
  assume "i \<noteq> [] \<and> LF \<notin> set i \<and> CR \<notin> set i \<and> strip i = i"
  then have "ids_in (i @ [LF]) = [i]" by (simp add: ids_in_clean clean_id_def)
  then show "i \<in> load_processed_email_ids (save_processed_email_id i w)"
    using load_save [OF assms, of i] by simp
next
  assume "strip j = []"
  then show "j \<notin> load_processed_email_ids w'"
    using loaded_ids_stripped [of j w'] by auto
next
  show "load_processed_email_ids ((save_processed_email_id i ^^ Suc n) w) =
        load_processed_email_ids (save_processed_email_id i w)"
    using assms by (rule load_save_repeat)
qed

theorem ledger_round_trip_witness:
  "ledger_terminated (world_at 739257 16)
   \<and> (''18c2f'' \<noteq> [] \<and> LF \<notin> set ''18c2f'' \<and> CR \<notin> set ''18c2f'' \<and> strip ''18c2f'' = ''18c2f'')
   \<and> ''18c2f'' \<in> load_processed_email_ids (save_processed_email_id ''18c2f'' (world_at 739257 16))
   \<and> strip ''  '' = []
   \<and> ''  '' \<notin> load_processed_email_ids (save_processed_email_id ''  '' (world_at 739257 16))
   \<and> load_processed_email_ids ((save_processed_email_id ''18c2f'' ^^ Suc 2) (world_at 739257 16)) =
       load_processed_email_ids (save_processed_email_id ''18c2f'' (world_at 739257 16))"
proof -
  have t: "ledger_terminated (world_at 739257 16)"
    by (simp add: ledger_terminated_def world_at_def)
  have c: "''18c2f'' \<noteq> [] \<and> LF \<notin> set ''18c2f'' \<and> CR \<notin> set ''18c2f'' \<and> strip ''18c2f'' = ''18c2f''"
    by (simp add: LF_def CR_def strip_def lstrip_def rstrip_def isspace_def whitespace_def)
  have e: "strip ''  '' = []"
    by (simp add: strip_def lstrip_def rstrip_def isspace_def whitespace_def)
  show ?thesis
    using t c e
      ledger_round_trip [OF t, of "''18c2f''" "''  ''"
        "save_processed_email_id ''  '' (world_at 739257 16)" 2]
    by blast
qed

section \<open>Properties of the window resolution\<close>

lemma slot_on_valid:
  "valid_date d \<Longrightarrow>
   slot_on d = Inr (DateTime (combine d (time_of_day 9)), DateTime (combine d (time_of_day 10)))"
  by (simp add: slot_on_def datetime_add_def combine_def time_of_day_def hours_def
      us_per_hour_def us_per_day_def valid_date_def Let_def)

lemma datetime_add_one_hour:
  "valid_date d \<Longrightarrow>
   datetime_add (combine d (time_of_day 9)) (hours 1) = Inr (combine d (time_of_day 10))"
  by (simp add: datetime_add_def combine_def time_of_day_def hours_def
      us_per_hour_def us_per_day_def valid_date_def Let_def)

lemma date_add_one_day:
  "valid_date d \<Longrightarrow> d \<noteq> date_max \<Longrightarrow> date_add d (days 1) = Inr (d + 1)"
  by (simp add: date_add_def days_def us_per_day_def valid_date_def Let_def)

lemma default_slot_frozen:
  assumes "\<forall>k. clock w (clock_reads w + k) = now"
    and "valid_datetime now"
    and "hour now < 17 \<or> dt_day now \<noteq> date_max"
  shows "fst (default_slot w) = slot_on (if hour now < 17 then dt_day now else dt_day now + 1)"
proof -
  have r0: "clock w (clock_reads w) = now" using assms(1) [rule_format, of 0] by simp
  have r1: "clock w (Suc (clock_reads w)) = now" using assms(1) [rule_format, of 1] by simp
  have r2: "clock w (Suc (Suc (clock_reads w))) = now" using assms(1) [rule_format, of 2] by simp
  show ?thesis
  proof (cases "hour now < 17")
    case True
    then show ?thesis
      by (simp add: default_slot_def date_today_def datetime_now_def r0 r1)
  next
    case False
    with assms(3) have "dt_day now \<noteq> date_max" by simp
    with assms(2) have "date_add (dt_day now) (days 1) = Inr (dt_day now + 1)"
      by (simp add: date_add_one_day valid_datetime_def)
    with False show ?thesis
      by (simp add: default_slot_def date_today_def datetime_now_def r0 r1 r2)
  qed
qed

lemma resolve_window_default:
  assumes "dueDate t = None"
    and "case suggestedTimeOfDay t of None \<Rightarrow> True | Some s \<Rightarrow> s = [] \<or> fromisoformat env s = None"
  shows "resolve_window env t w = default_slot w"
  using assms by (auto simp: resolve_window_def nonempty_def split: option.splits)

lemma resolve_window_all_day:
  assumes "dueDate t = Some (Date d)"
    and "case suggestedTimeOfDay t of None \<Rightarrow> True | Some s \<Rightarrow> s = [] \<or> fromisoformat env s = None"
  shows "resolve_window env t w = (all_day_window d, w)"
  using assms by (auto simp: resolve_window_def nonempty_def split: option.splits)

text \<open>
  With an explicit date and time the suggested timestamp is never looked at: the window
  is the explicit start with the parsed duration added, whenever the parser returns.
\<close>

lemma resolve_window_explicit_datetime:
  assumes "dueDate t = Some (DateTime dt)"
  shows "resolve_window env t w = (timed_window dt (suggestedDuration t), w)"
  using assms by (simp add: resolve_window_def)

text \<open>
  C3 (an explicit date and time wins, with the parsed duration added): the code does
  not deliver this window when the task carries a duration text. The task below is due
  on 2025-01-06 at 10:00, with the suggested timestamp \<^verbatim>\<open>2025-01-07T15:00:00\<close> and the
  suggested duration \<^verbatim>\<open>30 minutes\<close>; branch 1 is taken, and the call of the duration
  parser at line 124 raises \<^verbatim>\<open>NameError\<close>, which nothing catches.
\<close>

theorem explicit_datetime_with_duration_raises:
  "fst (resolve_window (example_env [] True True) meeting_task (world_at 739257 16)) = Inl NameError"
  by (simp add: resolve_window_def meeting_task_def plain_task_def timed_window_def
      parse_duration_string_raises nonempty_def)

text \<open>
  C4 (graceful degradation to all-day): a task whose due date \<open>d\<close> is a date without
  time, and whose suggested timestamp is absent, empty or rejected by
  \<^verbatim>\<open>datetime.fromisoformat\<close>, gets the all-day window from \<open>d\<close> to \<open>d + 1\<close> day. The day
  after \<open>d\<close> has to exist: \<open>d\<close> is a date before \<^verbatim>\<open>date.max\<close>, where the addition of
  line 139 raises \<^verbatim>\<open>OverflowError\<close>.
\<close>

theorem date_only_all_day:
  assumes "dueDate t = Some (Date d)"
    and "case suggestedTimeOfDay t of None \<Rightarrow> True | Some s \<Rightarrow> s = [] \<or> fromisoformat env s = None"
    and "valid_date d" and "d \<noteq> date_max"
  shows "fst (resolve_window env t w) = Inr (Date d, Date (d + 1))
         \<and> date_add d (days 1) = Inr (d + 1)
         \<and> isAllDay (Date d, Date (d + 1))"
  using resolve_window_all_day [OF assms(1,2)] date_add_one_day [OF assms(3,4)]
  by (simp add: all_day_window_def isAllDay_def)

theorem date_only_all_day_witness:
  "dueDate report_task = Some (Date 739257)
   \<and> suggestedTimeOfDay report_task = Some ''not-a-date''
   \<and> fromisoformat (example_env [] True True) ''not-a-date'' = None
   \<and> valid_date 739257 \<and> 739257 \<noteq> date_max
   \<and> fst (resolve_window (example_env [] True True) report_task (world_at 739257 16)) =
       Inr (Date 739257, Date 739258)"
proof -
  have a: "dueDate report_task = Some (Date 739257)"
    by (simp add: report_task_def plain_task_def)
  have s: "suggestedTimeOfDay report_task = Some ''not-a-date''"
    by (simp add: report_task_def plain_task_def)
  have f: "fromisoformat (example_env [] True True) ''not-a-date'' = None"
    by (simp add: example_env_def)
  have b: "case suggestedTimeOfDay report_task of None \<Rightarrow> True
        | Some s \<Rightarrow> s = [] \<or> fromisoformat (example_env [] True True) s = None"
    using s f by simp
  have v: "valid_date 739257" and n: "739257 \<noteq> date_max"
    by (simp_all add: valid_date_def date_max_def)
  show ?thesis
    using a s f v n date_only_all_day [OF a b v n, of "world_at 739257 16"] by simp
qed

text \<open>
  C5 (default-slot boundary): a task without due date whose suggested timestamp is
  absent, empty or rejected by \<^verbatim>\<open>datetime.fromisoformat\<close> starts at 9:00 today when the
  hour is below 17 and at 9:00 tomorrow from 17:00 on; the window lasts one hour and
  is not all-day. \<open>now\<close> is what the system clock shows throughout the call (the code
  takes no current time as argument, it reads the clock), and 9 and 17 are the constants
  of lines 154-156 and 162-164. From 17:00 on, tomorrow has to exist: today is not
  \<^verbatim>\<open>date.max\<close>.
\<close>

theorem default_slot_boundary:
  assumes "dueDate t = None"
    and "case suggestedTimeOfDay t of None \<Rightarrow> True | Some s \<Rightarrow> s = [] \<or> fromisoformat env s = None"
    and "\<forall>k. clock w (clock_reads w + k) = now"
    and "valid_datetime now"
    and "hour now < 17 \<or> dt_day now \<noteq> date_max"
  shows "let event_date = (if hour now < 17 then dt_day now else dt_day now + 1);
             start = combine event_date (time_of_day 9);
             finish = combine event_date (time_of_day 10)
         in fst (resolve_window env t w) = Inr (DateTime start, DateTime finish)
            \<and> datetime_add start (hours 1) = Inr finish
            \<and> \<not> isAllDay (DateTime start, DateTime finish)"
proof -
  let ?d = "if hour now < 17 then dt_day now else dt_day now + 1"
  have v: "valid_date ?d"
    using assms(4,5) by (auto simp: valid_datetime_def valid_date_def)
  have "fst (resolve_window env t w) = slot_on ?d"
    using resolve_window_default [OF assms(1,2)] default_slot_frozen [OF assms(3,4,5)] by simp
  then show ?thesis
    using slot_on_valid [OF v] datetime_add_one_hour [OF v]
    by (simp add: Let_def isAllDay_def)
qed

theorem default_slot_boundary_witness:
  "dueDate plain_task = None
   \<and> suggestedTimeOfDay plain_task = None
   \<and> valid_datetime (combine 739257 (time_of_day 16)) \<and> hour (combine 739257 (time_of_day 16)) = 16
   \<and> valid_datetime (combine 739257 (time_of_day 18)) \<and> hour (combine 739257 (time_of_day 18)) = 18
   \<and> fst (resolve_window (example_env [] True True) plain_task (world_at 739257 16)) =
       Inr (DateTime (combine 739257 (time_of_day 9)), DateTime (combine 739257 (time_of_day 10)))
   \<and> fst (resolve_window (example_env [] True True) plain_task (world_at 739257 18)) =
       Inr (DateTime (combine 739258 (time_of_day 9)), DateTime (combine 739258 (time_of_day 10)))"
proof -
  have a: "dueDate plain_task = None" and a': "suggestedTimeOfDay plain_task = None"
    by (simp_all add: plain_task_def)
  have b: "case suggestedTimeOfDay plain_task of None \<Rightarrow> True
        | Some s \<Rightarrow> s = [] \<or> fromisoformat (example_env [] True True) s = None"
    by (simp add: plain_task_def)
  have c: "\<forall>k. clock (world_at 739257 h) (clock_reads (world_at 739257 h) + k) =
               combine 739257 (time_of_day h)" for h
    by (simp add: world_at_def)
  have v16: "valid_datetime (combine 739257 (time_of_day 16))"
    and h16: "hour (combine 739257 (time_of_day 16)) = 16"
    and v18: "valid_datetime (combine 739257 (time_of_day 18))"
    and h18: "hour (combine 739257 (time_of_day 18)) = 18"
    by (simp_all add: valid_datetime_def valid_date_def date_max_def combine_def time_of_day_def
        hour_def us_per_hour_def us_per_day_def)
  have n16: "hour (combine 739257 (time_of_day 16)) < 17
             \<or> dt_day (combine 739257 (time_of_day 16)) \<noteq> date_max"
    using h16 by simp
  have n18: "hour (combine 739257 (time_of_day 18)) < 17
             \<or> dt_day (combine 739257 (time_of_day 18)) \<noteq> date_max"
    by (simp add: combine_def date_max_def)
  show ?thesis
    using a a' v16 h16 v18 h18
      default_slot_boundary [OF a b c [of 16] v16 n16]
      default_slot_boundary [OF a b c [of 18] v18 n18]
    by (simp add: Let_def combine_def)
qed

lemma default_slot_same_readings:
  assumes "\<forall>k. clock w (clock_reads w + k) = clock w' (clock_reads w' + k)"
  shows "fst (default_slot w) = fst (default_slot w')"
proof -
  have r0: "clock w (clock_reads w) = clock w' (clock_reads w')"
    using assms [rule_format, of 0] by simp
  have r1: "clock w (Suc (clock_reads w)) = clock w' (Suc (clock_reads w'))"
    using assms [rule_format, of 1] by simp
  have r2: "clock w (Suc (Suc (clock_reads w))) = clock w' (Suc (Suc (clock_reads w')))"
    using assms [rule_format, of 2] by simp
  show ?thesis
    by (simp add: default_slot_def date_today_def datetime_now_def r0 r1 r2 Let_def
        split: sum.splits)
qed

text \<open>
  C6 (determinism), as the code has it: the window is a function of the task and of
  what the system clock shows while the call runs. The code has no argument for the
  current time or for the two hours; it calls \<^verbatim>\<open>date.today()\<close> and \<^verbatim>\<open>datetime.now()\<close>.
  Two calls on the same task give the same result when the clock readings they take
  are the same, or when the task has a due date or a suggested timestamp that parses
  (branches 1 to 4, which never read the clock).
\<close>

theorem resolve_window_depends_on_task_and_clock:
  assumes "(\<forall>k. clock w (clock_reads w + k) = clock w' (clock_reads w' + k))
           \<or> dueDate t \<noteq> None
           \<or> (\<exists>s dt. nonempty (suggestedTimeOfDay t) = Some s \<and> fromisoformat env s = Some dt)"
  shows "fst (resolve_window env t w) = fst (resolve_window env t w')"
  using assms default_slot_same_readings [of w w']
  by (auto simp: resolve_window_def split: option.splits pydate.splits)

theorem resolve_window_depends_on_task_and_clock_witness:
  "dueDate report_task \<noteq> None
   \<and> clock (world_at 739257 16) 0 \<noteq> clock (world_at 739257 18) 0
   \<and> fst (resolve_window (example_env [] True True) report_task (world_at 739257 16)) =
     fst (resolve_window (example_env [] True True) report_task (world_at 739257 18))"
proof -
  have d: "dueDate report_task \<noteq> None" by (simp add: report_task_def plain_task_def)
  have c: "clock (world_at 739257 16) 0 \<noteq> clock (world_at 739257 18) 0"
    by (simp add: world_at_def combine_def time_of_day_def us_per_hour_def)
  show ?thesis
    using d c
      resolve_window_depends_on_task_and_clock [of "world_at 739257 16" "world_at 739257 18"
        report_task "example_env [] True True"]
    by blast
qed

text \<open>
  C6 as stated fails: the same task, handed to the same function with the same
  arguments at 16:00 and at 18:00 of the same day, gets two different windows.
\<close>

theorem resolve_window_clock_counterexample:
  "fst (resolve_window (example_env [] True True) plain_task (world_at 739257 16)) \<noteq>
   fst (resolve_window (example_env [] True True) plain_task (world_at 739257 18))"
  by (simp add: resolve_window_def plain_task_def nonempty_def default_slot_def date_today_def
      datetime_now_def world_at_def combine_def time_of_day_def hour_def us_per_hour_def
      slot_on_def datetime_add_def hours_def us_per_day_def date_add_def days_def date_max_def
      Let_def)

section \<open>Properties of the main loop\<close>

subsection \<open>What a run adds to the ledger\<close>

lemma resolve_window_ledger: "ledger_file (snd (resolve_window env t w)) = ledger_file w"
  by (simp add: resolve_window_def default_slot_def date_today_def datetime_now_def Let_def
      split: option.splits pydate.splits sum.splits)

lemma add_task_ledger: "ledger_file (snd (add_task env tz t w)) = ledger_file w"
proof -
  have "ledger_file (snd (resolve_window env t (snd (date_today w)))) = ledger_file w"
    by (simp add: resolve_window_ledger date_today_def)
  then show ?thesis
    by (auto simp: add_task_def Let_def split: prod.splits sum.splits)
qed

lemma add_tasks_ledger: "ledger_file (snd (add_tasks env tz ts w)) = ledger_file w"
proof (induction ts arbitrary: w)
  case Nil
  then show ?case by simp
next
  case (Cons t ts)
  show ?case
  proof (cases "add_task env tz t w")
    case (Pair r w1)
    then have l: "ledger_file w1 = ledger_file w"
      using add_task_ledger [of env tz t w] by simp
    show ?thesis
    proof (cases r)
      case None
      then show ?thesis using Pair l Cons.IH [of w1] by simp
    next
      case (Some e)
      then show ?thesis using Pair l by simp
    qed
  qed
qed

lemma create_calendar_events_ledger:
  "ledger_file (snd (create_calendar_events_from_tasks env ts tz w)) = ledger_file w"
  by (simp add: create_calendar_events_from_tasks_def add_tasks_ledger)

lemma create_calendar_events_ledger':
  "create_calendar_events_from_tasks env ts tz w = (r, w1) \<Longrightarrow> ledger_file w1 = ledger_file w"
  using create_calendar_events_ledger [of env ts tz w] by simp

lemma process_message_ledger:
  "ledger_file (snd (process_message env tz i w)) = ledger_file w
   \<or> (committable env tz i \<and>
      (\<exists>w1. ledger_file w1 = ledger_file w \<and>
            snd (process_message env tz i w) = save_processed_email_id i w1))"
proof (cases "get_message env i")
  case (Inl e)
  then show ?thesis by (simp add: process_message_def)
next
  case (Inr mo)
  show ?thesis
  proof (cases mo)
    case None
    with Inr show ?thesis by (simp add: process_message_def)
  next
    case (Some m)
    show ?thesis
    proof (cases "download_attachments env m")
      case (Inl e)
      with Inr Some show ?thesis by (simp add: process_message_def)
    next
      case dl: (Inr ps)
      show ?thesis
      proof (cases "collect_tasks env ps")
        case (Inl e)
        with Inr Some dl show ?thesis by (simp add: process_message_def)
      next
        case ct: (Inr ts)
        show ?thesis
        proof (cases "ts = []")
          case True
          with Inr Some dl ct show ?thesis by (simp add: process_message_def)
        next
          case False
          obtain r w1 where cc: "create_calendar_events_from_tasks env ts tz w = (r, w1)"
            by (cases "create_calendar_events_from_tasks env ts tz w")
          then have l: "ledger_file w1 = ledger_file w"
            by (rule create_calendar_events_ledger')
          show ?thesis
          proof (cases r)
            case (Some e)
            with Inr \<open>mo = Some m\<close> dl ct False cc l show ?thesis
              by (simp add: process_message_def)
          next
            case None
            show ?thesis
            proof (cases "mark_message_as_read env i")
              case (Inl e)
              with Inr \<open>mo = Some m\<close> dl ct False cc l None show ?thesis
                by (simp add: process_message_def)
            next
              case mk: (Inr b)
              show ?thesis
              proof (cases b)
                case True
                have "fst (create_calendar_events_from_tasks env ts tz w) = None"
                  using cc None by simp
                then have "\<exists>w. fst (create_calendar_events_from_tasks env ts tz w) = None" ..
                then have "committable env tz i"
                  using Inr \<open>mo = Some m\<close> dl ct \<open>ts \<noteq> []\<close> mk True
                  by (simp add: committable_def)
                moreover have "snd (process_message env tz i w) = save_processed_email_id i w1"
                  using Inr \<open>mo = Some m\<close> dl ct False cc None mk True
                  by (simp add: process_message_def)
                ultimately show ?thesis using l by blast
              next
                case False
                with Inr \<open>mo = Some m\<close> dl ct \<open>ts \<noteq> []\<close> cc l None mk show ?thesis
                  by (simp add: process_message_def)
              qed
            qed
          qed
        qed
      qed
    qed
  qed
qed

lemma load_cong: "ledger_file w' = ledger_file w \<Longrightarrow>
    load_processed_email_ids w' = load_processed_email_ids w"
  by (simp add: load_processed_email_ids_def)

lemma terminated_cong: "ledger_file w' = ledger_file w \<Longrightarrow>
    ledger_terminated w' = ledger_terminated w"
  by (simp add: ledger_terminated_def)


lemma process_message_load:
  assumes "ledger_terminated w" and "clean_id i"
  shows "ledger_terminated (snd (process_message env tz i w))
         \<and> load_processed_email_ids (snd (process_message env tz i w))
             \<subseteq> load_processed_email_ids w \<union> {j. j = i \<and> committable env tz i}"
  using process_message_ledger [of env tz i w]
proof
  assume e: "ledger_file (snd (process_message env tz i w)) = ledger_file w"
  show ?thesis using assms(1) load_cong [OF e] terminated_cong [OF e] by simp
next
  assume "committable env tz i \<and>
      (\<exists>w1. ledger_file w1 = ledger_file w \<and>
            snd (process_message env tz i w) = save_processed_email_id i w1)"
  then obtain w1 where c: "committable env tz i" and l: "ledger_file w1 = ledger_file w"
    and s: "snd (process_message env tz i w) = save_processed_email_id i w1" by blast
  have t1: "ledger_terminated w1" using assms(1) terminated_cong [OF l] by simp
  have "load_processed_email_ids (save_processed_email_id i w1)
        = load_processed_email_ids w \<union> set (ids_in (i @ [LF]))"
    using load_save [OF t1, of i] load_cong [OF l] by simp
  moreover have "set (ids_in (i @ [LF])) \<subseteq> {i}"
    using assms(2) by (simp add: ids_in_clean)
  ultimately show ?thesis using s c by (auto simp: save_terminated)
qed

lemma process_messages_load:
  assumes "ledger_terminated w" and "\<forall>j\<in>set ids. clean_id j"
  shows "ledger_terminated (snd (process_messages env tz ids w))
         \<and> load_processed_email_ids (snd (process_messages env tz ids w))
             \<subseteq> load_processed_email_ids w \<union> {j \<in> set ids. committable env tz j}"
  using assms
proof (induction ids arbitrary: w)
  case Nil
  then show ?case by simp
next
  case (Cons i ids)
  obtain r w1 where pm: "process_message env tz i w = (r, w1)"
    by (cases "process_message env tz i w")
  have step: "ledger_terminated w1"
    "load_processed_email_ids w1 \<subseteq> load_processed_email_ids w \<union> {j. j = i \<and> committable env tz i}"
    using process_message_load [where w=w and i=i and env=env and tz=tz] Cons.prems pm by simp_all
  show ?case
  proof (cases r)
    case (Some e)
    then show ?thesis using pm step by auto
  next
    case None
    have "ledger_terminated (snd (process_messages env tz ids w1))
         \<and> load_processed_email_ids (snd (process_messages env tz ids w1))
             \<subseteq> load_processed_email_ids w1 \<union> {j \<in> set ids. committable env tz j}"
      using Cons.IH [OF step(1)] Cons.prems(2) by simp
    then show ?thesis using pm None step by auto
  qed
qed

lemma main_load:
  assumes "ledger_terminated w"
    and "\<forall>ids. search_messages env = Inr ids \<longrightarrow> (\<forall>j\<in>set ids. clean_id j)"
  shows "load_processed_email_ids (snd (main env tz w))
           \<subseteq> load_processed_email_ids w \<union> {j. committable env tz j}"
proof (cases "search_messages env")
  case (Inl e)
  then show ?thesis by (simp add: main_def)
next
  case (Inr ids)
  then have "\<forall>j\<in>set (new_message_ids ids w). clean_id j"
    using assms(2) by (simp add: new_message_ids_def)
  then show ?thesis
    using process_messages_load [OF assms(1), where ids="new_message_ids ids w" and env=env and tz=tz] Inr
    by (auto simp: main_def)
qed

text \<open>
  When \<^verbatim>\<open>create_event\<close> raises on every call made for one of the tasks, adding the
  tasks ends with an exception in every world: the loop reaches that task or raises
  before it.
\<close>

lemma add_task_raises:
  assumes "\<forall>ev. event_of_task tz t ev \<longrightarrow> raised (create_event env ev) \<noteq> None"
  shows "fst (add_task env tz t w) \<noteq> None"
proof -
  obtain d w0 where a: "date_today w = (d, w0)" by (cases "date_today w")
  obtain r w1 where b: "resolve_window env t w0 = (r, w1)" by (cases "resolve_window env t w0")
  show ?thesis
  proof (cases r)
    case (Inl e)
    then show ?thesis using a b by (simp add: add_task_def)
  next
    case (Inr win)
    obtain start finish where win: "win = (start, finish)" by (cases win)
    let ?ev = "\<lparr>ev_summary = task t, ev_priority = priority t,
                 ev_source_line = source_line t, ev_line_number = line_number t,
                 ev_processed_on = d, ev_start = start, ev_end = finish,
                 ev_timezone = tz\<rparr>"
    have "event_of_task tz t ?ev" by (simp add: event_of_task_def)
    then have "raised (create_event env ?ev) \<noteq> None" using assms by blast
    then obtain e where "create_event env ?ev = Inl e"
      by (cases "create_event env ?ev") (simp_all add: raised_def)
    then show ?thesis using a b Inr win by (simp add: add_task_def)
  qed
qed

lemma add_tasks_raises:
  assumes "t \<in> set ts"
    and "\<forall>ev. event_of_task tz t ev \<longrightarrow> raised (create_event env ev) \<noteq> None"
  shows "fst (add_tasks env tz ts w) \<noteq> None"
  using assms(1)
proof (induction ts arbitrary: w)
  case Nil
  then show ?case by simp
next
  case (Cons u us)
  obtain r w1 where a: "add_task env tz u w = (r, w1)" by (cases "add_task env tz u w")
  show ?case
  proof (cases r)
    case (Some e)
    then show ?thesis using a by simp
  next
    case None
    have "u \<noteq> t"
    proof
      assume "u = t"
      then have "fst (add_task env tz u w) \<noteq> None" using add_task_raises [OF assms(2)] by simp
      then show False using a None by simp
    qed
    then have "t \<in> set us" using Cons.prems by simp
    then have "fst (add_tasks env tz us w1) \<noteq> None" by (rule Cons.IH)
    then show ?thesis using a None by simp
  qed
qed

lemma raising_task_not_committable:
  assumes "calendar_service env"
    and "get_message env i = Inr (Some m)"
    and "download_attachments env m = Inr ps"
    and "collect_tasks env ps = Inr ts"
    and "t \<in> set ts"
    and "\<forall>ev. event_of_task tz t ev \<longrightarrow> raised (create_event env ev) \<noteq> None"
  shows "\<not> committable env tz i"
proof
  assume "committable env tz i"
  then obtain w where "fst (create_calendar_events_from_tasks env ts tz w) = None"
    using assms(2,3,4) by (auto simp: committable_def)
  moreover have "fst (create_calendar_events_from_tasks env ts tz w) \<noteq> None"
    using assms(1,5) add_tasks_raises [OF assms(5,6), of w]
    by (auto simp: create_calendar_events_from_tasks_def)
  ultimately show False by simp
qed

lemma main_without_calendar: "\<not> calendar_service env \<Longrightarrow> snd (main env tz w) = w"
  by (simp add: main_def)

text \<open>
  An exception while the tasks of an e-mail are added ends the iteration with that
  exception, before the e-mail is marked as read or written to the ledger.
\<close>

lemma process_message_events_raise:
  assumes "get_message env i = Inr (Some m)"
    and "download_attachments env m = Inr ps"
    and "collect_tasks env ps = Inr ts"
    and "fst (create_calendar_events_from_tasks env ts tz w) = Some e"
  shows "fst (process_message env tz i w) = Some e
         \<and> ledger_file (snd (process_message env tz i w)) = ledger_file w"
proof -
  obtain r w1 where cc: "create_calendar_events_from_tasks env ts tz w = (r, w1)"
    by (cases "create_calendar_events_from_tasks env ts tz w")
  then have l: "ledger_file w1 = ledger_file w" by (rule create_calendar_events_ledger')
  have r: "r = Some e" using cc assms(4) by simp
  have "ts \<noteq> []" using assms(4) by (auto simp: create_calendar_events_from_tasks_def)
  then have "process_message env tz i w = (Some e, w1)"
    using assms(1,2,3) cc r by (simp add: process_message_def)
  then show ?thesis using l by simp
qed

text \<open>
  C9 (empty extraction is not committed): an e-mail that is retrieved, whose download
  returns and whose content yields no task is not in the ledger after the run, whether
  the run ends normally or with an exception. The e-mail was not in the ledger when the
  run started (otherwise it is not processed at all); the ledger file is missing, empty
  or newline-terminated and the candidate ids are clean, so that no line written for
  another e-mail reads as this id.
\<close>

theorem no_tasks_no_commit:
  assumes "ledger_terminated w"
    and "\<forall>ids. search_messages env = Inr ids \<longrightarrow> (\<forall>j\<in>set ids. clean_id j)"
    and "i \<notin> load_processed_email_ids w"
    and "get_message env i = Inr (Some m)"
    and "download_attachments env m = Inr ps"
    and "collect_tasks env ps = Inr []"
  shows "i \<notin> load_processed_email_ids (snd (main env tz w))"
proof -
  have "\<not> committable env tz i" using assms(4,5,6) by (auto simp: committable_def)
  then show ?thesis using main_load [OF assms(1,2), where tz=tz] assms(3) by auto
qed

text \<open>Unfolding the program on the example inputs.\<close>

lemmas eval_defs = main_def process_message_def collect_tasks_def
  process_content_for_tasks_def create_calendar_events_from_tasks_def
  add_task_def resolve_window_def default_slot_def slot_on_def date_today_def
  datetime_now_def new_message_ids_def load_processed_email_ids_def save_processed_email_id_def
  ids_in_def strip_def lstrip_def rstrip_def isspace_def whitespace_def nonempty_def
  example_env_def world_at_def plain_task_def combine_def time_of_day_def hour_def hours_def
  days_def us_per_hour_def us_per_day_def date_add_def datetime_add_def date_max_def LF_def CR_def
  Let_def

theorem no_tasks_no_commit_witness:
  "ledger_terminated (world_at 739257 16)
   \<and> search_messages (example_env [] True True) = Inr [''m1''] \<and> clean_id ''m1''
   \<and> ''m1'' \<notin> load_processed_email_ids (world_at 739257 16)
   \<and> get_message (example_env [] True True) ''m1'' = Inr (Some ())
   \<and> download_attachments (example_env [] True True) () = Inr [''note.pdf'']
   \<and> collect_tasks (example_env [] True True) [''note.pdf''] = Inr []
   \<and> ''m1'' \<notin> load_processed_email_ids
        (snd (main (example_env [] True True) ''Europe/Dublin'' (world_at 739257 16)))"
proof -
  have t: "ledger_terminated (world_at 739257 16)"
    by (simp add: ledger_terminated_def world_at_def)
  have s: "search_messages (example_env [] True True) = Inr [''m1'']"
    by (simp add: example_env_def)
  have k: "clean_id ''m1''"
    by (simp add: clean_id_def LF_def CR_def strip_def lstrip_def rstrip_def
        isspace_def whitespace_def)
  have c: "\<forall>ids. search_messages (example_env [] True True) = Inr ids \<longrightarrow> (\<forall>j\<in>set ids. clean_id j)"
    using s k by simp
  have n: "''m1'' \<notin> load_processed_email_ids (world_at 739257 16)"
    by (simp add: load_processed_email_ids_def world_at_def)
  have g: "get_message (example_env [] True True) ''m1'' = Inr (Some ())"
    and d: "download_attachments (example_env [] True True) () = Inr [''note.pdf'']"
    by (simp_all add: example_env_def)
  have e: "collect_tasks (example_env [] True True) [''note.pdf''] = Inr []"
    by (simp add: eval_defs)
  show ?thesis
    using t s k n g d e no_tasks_no_commit [OF t c n g d e, of "''Europe/Dublin''"] by blast
qed

subsection \<open>The value returned by \<^verbatim>\<open>create_event\<close> is not consulted\<close>

lemma date_today_core:
  "core w = core w' \<Longrightarrow>
   fst (date_today w) = fst (date_today w') \<and> core (snd (date_today w)) = core (snd (date_today w'))"
  by (simp add: core_def date_today_def)

lemma default_slot_core:
  "core w = core w' \<Longrightarrow>
   fst (default_slot w) = fst (default_slot w') \<and> core (snd (default_slot w)) = core (snd (default_slot w'))"
  by (simp add: core_def default_slot_def date_today_def datetime_now_def Let_def
      split: sum.splits)

lemma resolve_window_core:
  assumes "core w = core w'"
  shows "fst (resolve_window (env\<lparr>create_event := f\<rparr>) t w') = fst (resolve_window env t w)
         \<and> core (snd (resolve_window (env\<lparr>create_event := f\<rparr>) t w')) = core (snd (resolve_window env t w))"
  using assms default_slot_core [OF assms]
  by (simp add: resolve_window_def split: option.splits pydate.splits)

lemma add_task_core:
  assumes "core w = core w'"
    and "\<forall>ev. raised (f ev) = raised (create_event env ev)"
  shows "fst (add_task (env\<lparr>create_event := f\<rparr>) tz t w') = fst (add_task env tz t w)
         \<and> core (snd (add_task (env\<lparr>create_event := f\<rparr>) tz t w')) = core (snd (add_task env tz t w))"
proof -
  obtain d w0 where a: "date_today w = (d, w0)" by (cases "date_today w")
  obtain d' w0' where a': "date_today w' = (d', w0')" by (cases "date_today w'")
  have d: "d' = d" and c0: "core w0 = core w0'"
    using date_today_core [OF assms(1)] a a' by simp_all
  obtain r w1 where b: "resolve_window env t w0 = (r, w1)" by (cases "resolve_window env t w0")
  obtain r' w1' where b': "resolve_window (env\<lparr>create_event := f\<rparr>) t w0' = (r', w1')"
    by (cases "resolve_window (env\<lparr>create_event := f\<rparr>) t w0'")
  have r: "r' = r" and c1: "core w1' = core w1"
    using resolve_window_core [OF c0, where env=env and f=f and t=t] b b' by simp_all
  show ?thesis
  proof (cases r)
    case (Inl e)
    then show ?thesis using a a' b b' r c1 by (simp add: add_task_def)
  next
    case (Inr win)
    obtain start finish where win: "win = (start, finish)" by (cases win)
    let ?ev = "\<lparr>ev_summary = task t, ev_priority = priority t,
                 ev_source_line = source_line t, ev_line_number = line_number t,
                 ev_processed_on = d, ev_start = start, ev_end = finish,
                 ev_timezone = tz\<rparr>"
    have ag: "raised (f ?ev) = raised (create_event env ?ev)" using assms(2) by blast
    show ?thesis
    proof (cases "create_event env ?ev")
      case ce: (Inl e)
      then have "f ?ev = Inl e" using ag by (simp add: raised_def split: sum.splits)
      then show ?thesis using a a' b b' r c1 d Inr win ce by (simp add: add_task_def)
    next
      case ce: (Inr ok)
      then obtain ok' where "f ?ev = Inr ok'" using ag by (auto simp: raised_def split: sum.splits)
      then show ?thesis using a a' b b' r c1 d Inr win ce
        by (simp add: add_task_def core_def)
    qed
  qed
qed

lemma add_tasks_core:
  assumes "core w = core w'"
    and "\<forall>ev. raised (f ev) = raised (create_event env ev)"
  shows "fst (add_tasks (env\<lparr>create_event := f\<rparr>) tz ts w') = fst (add_tasks env tz ts w)
         \<and> core (snd (add_tasks (env\<lparr>create_event := f\<rparr>) tz ts w')) = core (snd (add_tasks env tz ts w))"
  using assms(1)
proof (induction ts arbitrary: w w')
  case Nil
  then show ?case by simp
next
  case (Cons t ts)
  obtain r w1 where a: "add_task env tz t w = (r, w1)" by (cases "add_task env tz t w")
  obtain r' w1' where a': "add_task (env\<lparr>create_event := f\<rparr>) tz t w' = (r', w1')"
    by (cases "add_task (env\<lparr>create_event := f\<rparr>) tz t w'")
  have r: "r' = r" and c: "core w1 = core w1'"
    using add_task_core [OF Cons.prems assms(2), where tz=tz and t=t] a a' by simp_all
  show ?case
  proof (cases r)
    case None
    then show ?thesis using a a' r Cons.IH [OF c] by simp
  next
    case (Some e)
    then show ?thesis using a a' r c by simp
  qed
qed

lemma create_calendar_events_core:
  assumes "core w = core w'"
    and "\<forall>ev. raised (f ev) = raised (create_event env ev)"
  shows "fst (create_calendar_events_from_tasks (env\<lparr>create_event := f\<rparr>) ts tz w')
           = fst (create_calendar_events_from_tasks env ts tz w)
         \<and> core (snd (create_calendar_events_from_tasks (env\<lparr>create_event := f\<rparr>) ts tz w'))
           = core (snd (create_calendar_events_from_tasks env ts tz w))"
  using assms add_tasks_core [OF assms, where tz=tz and ts=ts]
  by (simp add: create_calendar_events_from_tasks_def)

lemma process_content_for_tasks_create_event:
  "process_content_for_tasks (env\<lparr>create_event := f\<rparr>) text = process_content_for_tasks env text"
  by (simp add: process_content_for_tasks_def)

lemma tasks_from_attachments_create_event:
  "tasks_from_attachments (env\<lparr>create_event := f\<rparr>) ps = tasks_from_attachments env ps"
  by (induction ps)
    (simp_all add: process_content_for_tasks_create_event cong: sum.case_cong option.case_cong)

lemma collect_tasks_create_event:
  "collect_tasks (env\<lparr>create_event := f\<rparr>) ps = collect_tasks env ps"
  by (simp add: collect_tasks_def tasks_from_attachments_create_event)

lemma save_core:
  "core w = core w' \<Longrightarrow> core (save_processed_email_id i w') = core (save_processed_email_id i w)"
  by (simp add: core_def save_processed_email_id_def)

lemma process_message_core:
  assumes "core w = core w'"
    and "\<forall>ev. raised (f ev) = raised (create_event env ev)"
  shows "fst (process_message (env\<lparr>create_event := f\<rparr>) tz i w') = fst (process_message env tz i w)
         \<and> core (snd (process_message (env\<lparr>create_event := f\<rparr>) tz i w'))
           = core (snd (process_message env tz i w))"
proof -
  have cc: "fst (create_calendar_events_from_tasks (env\<lparr>create_event := f\<rparr>) ts tz w')
           = fst (create_calendar_events_from_tasks env ts tz w)
         \<and> core (snd (create_calendar_events_from_tasks (env\<lparr>create_event := f\<rparr>) ts tz w'))
           = core (snd (create_calendar_events_from_tasks env ts tz w))" for ts
    by (rule create_calendar_events_core [OF assms])
  show ?thesis
  proof (cases "get_message env i")
    case (Inl e)
    then show ?thesis using assms(1) by (simp add: process_message_def)
  next
    case (Inr mo)
    show ?thesis
    proof (cases mo)
      case None
      with Inr show ?thesis using assms(1) by (simp add: process_message_def)
    next
      case (Some m)
      show ?thesis
      proof (cases "download_attachments env m")
        case (Inl e)
        with Inr Some show ?thesis using assms(1) by (simp add: process_message_def)
      next
        case dl: (Inr ps)
        show ?thesis
        proof (cases "collect_tasks env ps")
          case (Inl e)
          with Inr Some dl show ?thesis using assms(1)
            by (simp add: process_message_def collect_tasks_create_event)
        next
          case ct: (Inr ts)
          obtain r w1 where c1: "create_calendar_events_from_tasks env ts tz w = (r, w1)"
            by (cases "create_calendar_events_from_tasks env ts tz w")
          obtain r' w1' where c2: "create_calendar_events_from_tasks (env\<lparr>create_event := f\<rparr>) ts tz w' = (r', w1')"
            by (cases "create_calendar_events_from_tasks (env\<lparr>create_event := f\<rparr>) ts tz w'")
          have r: "r' = r" and c: "core w1' = core w1" using cc [of ts] c1 c2 by simp_all
          have s: "core (save_processed_email_id i w1') = core (save_processed_email_id i w1)"
            using c save_core [of w1 w1' i] by simp
          have lhs: "process_message (env\<lparr>create_event := f\<rparr>) tz i w' =
              (if ts \<noteq> [] then
                 (case r of Some e \<Rightarrow> (Some e, w1')
                  | None \<Rightarrow>
                     (case mark_message_as_read env i of
                        Inl e \<Rightarrow> (Some e, w1')
                      | Inr True \<Rightarrow> (None, save_processed_email_id i w1')
                      | Inr False \<Rightarrow> (None, w1')))
               else (None, w'))"
            using Inr Some dl ct c2 r
            by (simp add: process_message_def collect_tasks_create_event
                cong: option.case_cong sum.case_cong)
          have rhs: "process_message env tz i w =
              (if ts \<noteq> [] then
                 (case r of Some e \<Rightarrow> (Some e, w1)
                  | None \<Rightarrow>
                     (case mark_message_as_read env i of
                        Inl e \<Rightarrow> (Some e, w1)
                      | Inr True \<Rightarrow> (None, save_processed_email_id i w1)
                      | Inr False \<Rightarrow> (None, w1)))
               else (None, w))"
            using Inr Some dl ct c1
            by (simp add: process_message_def)
          show ?thesis
            unfolding lhs rhs using c s assms(1)
            by (auto split: option.splits sum.splits bool.splits)
        qed
      qed
    qed
  qed
qed

lemma process_messages_core:
  assumes "core w = core w'"
    and "\<forall>ev. raised (f ev) = raised (create_event env ev)"
  shows "fst (process_messages (env\<lparr>create_event := f\<rparr>) tz ids w') = fst (process_messages env tz ids w)
         \<and> core (snd (process_messages (env\<lparr>create_event := f\<rparr>) tz ids w'))
           = core (snd (process_messages env tz ids w))"
  using assms(1)
proof (induction ids arbitrary: w w')
  case Nil
  then show ?case by simp
next
  case (Cons i ids)
  obtain r w1 where a: "process_message env tz i w = (r, w1)" by (cases "process_message env tz i w")
  obtain r' w1' where a': "process_message (env\<lparr>create_event := f\<rparr>) tz i w' = (r', w1')"
    by (cases "process_message (env\<lparr>create_event := f\<rparr>) tz i w'")
  have r: "r' = r" and c: "core w1 = core w1'"
    using process_message_core [OF Cons.prems assms(2), where tz=tz and i=i] a a' by simp_all
  show ?case
  proof (cases r)
    case None
    then show ?thesis using a a' r Cons.IH [OF c] by simp
  next
    case (Some e)
    then show ?thesis using a a' r c by simp
  qed
qed

lemma main_core:
  assumes "\<forall>ev. raised (f ev) = raised (create_event env ev)"
  shows "fst (main (env\<lparr>create_event := f\<rparr>) tz w) = fst (main env tz w)
         \<and> core (snd (main (env\<lparr>create_event := f\<rparr>) tz w)) = core (snd (main env tz w))"
  using process_messages_core [OF refl assms, where w=w and tz=tz]
  by (simp add: main_def split: sum.splits)

text \<open>
  C2 (partial failure), as the code has it. A failure of \<^verbatim>\<open>create_event\<close> keeps an
  e-mail out of the ledger when it is an exception, and only then.
  (1) What \<^verbatim>\<open>create_event\<close> returns has no effect on the ledger: if a second calendar
  client raises exactly where the first one does, whatever the two return otherwise,
  the run ends the same way and leaves the same ledger file.
  (2) An e-mail absent from the ledger at the start is absent at the end when marking
  it as read does not return true.
  (3) An e-mail absent from the ledger at the start is absent at the end when
  \<^verbatim>\<open>create_event\<close> raises on the calls made for one of its tasks, also when marking it
  as read would succeed.
  (4) In whatever world an e-mail is processed, an exception while its tasks are added
  ends the iteration with that exception and leaves the ledger file as it was.
  In (2) and (3) the ledger file is missing, empty or newline-terminated and the
  candidate ids are clean.
\<close>

theorem commit_ignores_create_event_result:
  assumes "\<forall>ev. raised (f ev) = raised (create_event env ev)"
  shows "fst (main (env\<lparr>create_event := f\<rparr>) tz w) = fst (main env tz w)
         \<and> ledger_file (snd (main (env\<lparr>create_event := f\<rparr>) tz w)) = ledger_file (snd (main env tz w))
         \<and> (ledger_terminated w
              \<and> (\<forall>ids. search_messages env = Inr ids \<longrightarrow> (\<forall>j\<in>set ids. clean_id j))
              \<and> i \<notin> load_processed_email_ids w
              \<and> mark_message_as_read env i \<noteq> Inr True
            \<longrightarrow> i \<notin> load_processed_email_ids (snd (main env tz w)))
         \<and> (ledger_terminated w
              \<and> (\<forall>ids. search_messages env = Inr ids \<longrightarrow> (\<forall>j\<in>set ids. clean_id j))
              \<and> i \<notin> load_processed_email_ids w
              \<and> get_message env i = Inr (Some m)
              \<and> download_attachments env m = Inr ps
              \<and> collect_tasks env ps = Inr ts
              \<and> t \<in> set ts
              \<and> (\<forall>ev. event_of_task tz t ev \<longrightarrow> raised (create_event env ev) \<noteq> None)
            \<longrightarrow> i \<notin> load_processed_email_ids (snd (main env tz w)))
         \<and> (get_message env i = Inr (Some m)
              \<and> download_attachments env m = Inr ps
              \<and> collect_tasks env ps = Inr ts
              \<and> fst (create_calendar_events_from_tasks env ts tz w') = Some e
            \<longrightarrow> fst (process_message env tz i w') = Some e
                \<and> ledger_file (snd (process_message env tz i w')) = ledger_file w')"
proof (intro conjI impI)
  show "fst (main (env\<lparr>create_event := f\<rparr>) tz w) = fst (main env tz w)"
    using main_core [OF assms] by blast
next
  have "core (snd (main (env\<lparr>create_event := f\<rparr>) tz w)) = core (snd (main env tz w))"
    using main_core [OF assms] by blast
  then show "ledger_file (snd (main (env\<lparr>create_event := f\<rparr>) tz w)) = ledger_file (snd (main env tz w))"
    by (simp add: core_def)
next
  assume a: "ledger_terminated w
              \<and> (\<forall>ids. search_messages env = Inr ids \<longrightarrow> (\<forall>j\<in>set ids. clean_id j))
              \<and> i \<notin> load_processed_email_ids w
              \<and> mark_message_as_read env i \<noteq> Inr True"
  then have "\<not> committable env tz i" by (simp add: committable_def)
  then show "i \<notin> load_processed_email_ids (snd (main env tz w))"
    using a main_load [where w=w and env=env and tz=tz] by auto
next
  assume a: "ledger_terminated w
              \<and> (\<forall>ids. search_messages env = Inr ids \<longrightarrow> (\<forall>j\<in>set ids. clean_id j))
              \<and> i \<notin> load_processed_email_ids w
              \<and> get_message env i = Inr (Some m)
              \<and> download_attachments env m = Inr ps
              \<and> collect_tasks env ps = Inr ts
              \<and> t \<in> set ts
              \<and> (\<forall>ev. event_of_task tz t ev \<longrightarrow> raised (create_event env ev) \<noteq> None)"
  show "i \<notin> load_processed_email_ids (snd (main env tz w))"
  proof (cases "calendar_service env")
    case False
    then show ?thesis using a by (simp add: main_without_calendar)
  next
    case True
    have "\<not> committable env tz i"
      using raising_task_not_committable [OF True, of i m ps ts t tz] a by blast
    then show ?thesis
      using a main_load [where w=w and env=env and tz=tz] by auto
  qed
next
  assume a: "get_message env i = Inr (Some m)
              \<and> download_attachments env m = Inr ps
              \<and> collect_tasks env ps = Inr ts
              \<and> fst (create_calendar_events_from_tasks env ts tz w') = Some e"
  then show "fst (process_message env tz i w') = Some e"
    using process_message_events_raise [of env i m ps ts tz w' e] by blast
next
  assume a: "get_message env i = Inr (Some m)
              \<and> download_attachments env m = Inr ps
              \<and> collect_tasks env ps = Inr ts
              \<and> fst (create_calendar_events_from_tasks env ts tz w') = Some e"
  then show "ledger_file (snd (process_message env tz i w')) = ledger_file w'"
    using process_message_events_raise [of env i m ps ts tz w' e] by blast
qed

theorem commit_ignores_create_event_result_witness:
  "(\<forall>ev. raised ((\<lambda>_. Inr True) ev :: py_error + bool) =
           raised (create_event (example_env [plain_task] False False) ev))
   \<and> ledger_terminated (world_at 739257 16)
   \<and> search_messages (example_env [plain_task] False False) = Inr [''m1''] \<and> clean_id ''m1''
   \<and> ''m1'' \<notin> load_processed_email_ids (world_at 739257 16)
   \<and> mark_message_as_read (example_env [plain_task] False False) ''m1'' \<noteq> Inr True
   \<and> fst (main ((example_env [plain_task] False False)\<lparr>create_event := (\<lambda>_. Inr True)\<rparr>)
            ''Europe/Dublin'' (world_at 739257 16))
     = fst (main (example_env [plain_task] False False) ''Europe/Dublin'' (world_at 739257 16))
   \<and> ledger_file (snd (main ((example_env [plain_task] False False)\<lparr>create_event := (\<lambda>_. Inr True)\<rparr>)
            ''Europe/Dublin'' (world_at 739257 16)))
     = ledger_file (snd (main (example_env [plain_task] False False) ''Europe/Dublin''
            (world_at 739257 16)))
   \<and> ''m1'' \<notin> load_processed_email_ids
        (snd (main (example_env [plain_task] False False) ''Europe/Dublin'' (world_at 739257 16)))
   \<and> search_messages raising_env = Inr [''m1'']
   \<and> mark_message_as_read raising_env ''m1'' = Inr True
   \<and> get_message raising_env ''m1'' = Inr (Some ())
   \<and> download_attachments raising_env () = Inr [''note.pdf'']
   \<and> collect_tasks raising_env [''note.pdf''] = Inr [plain_task, rent_task]
   \<and> rent_task \<in> set [plain_task, rent_task]
   \<and> fst (create_calendar_events_from_tasks raising_env [plain_task, rent_task] ''Europe/Dublin''
            (world_at 739257 16)) = Some (Raised ''HttpError'')
   \<and> fst (process_message raising_env ''Europe/Dublin'' ''m1'' (world_at 739257 16))
       = Some (Raised ''HttpError'')
   \<and> ledger_file (snd (process_message raising_env ''Europe/Dublin'' ''m1'' (world_at 739257 16)))
       = ledger_file (world_at 739257 16)
   \<and> ''m1'' \<notin> load_processed_email_ids
        (snd (main raising_env ''Europe/Dublin'' (world_at 739257 16)))"
proof -
  have r: "\<forall>ev. raised ((\<lambda>_. Inr True) ev :: py_error + bool) =
           raised (create_event (example_env [plain_task] False False) ev)"
    by (simp add: raised_def example_env_def)
  have t: "ledger_terminated (world_at 739257 16)"
    by (simp add: ledger_terminated_def world_at_def)
  have s: "search_messages (example_env [plain_task] False False) = Inr [''m1'']"
    by (simp add: example_env_def)
  have k: "clean_id ''m1''"
    by (simp add: clean_id_def LF_def CR_def strip_def lstrip_def rstrip_def
        isspace_def whitespace_def)
  have c: "\<forall>ids. search_messages (example_env [plain_task] False False) = Inr ids
          \<longrightarrow> (\<forall>j\<in>set ids. clean_id j)"
    using s k by simp
  have n: "''m1'' \<notin> load_processed_email_ids (world_at 739257 16)"
    by (simp add: load_processed_email_ids_def world_at_def)
  have m: "mark_message_as_read (example_env [plain_task] False False) ''m1'' \<noteq> Inr True"
    by (simp add: example_env_def)
  have first: "fst (main ((example_env [plain_task] False False)\<lparr>create_event := (\<lambda>_. Inr True)\<rparr>)
            ''Europe/Dublin'' (world_at 739257 16))
     = fst (main (example_env [plain_task] False False) ''Europe/Dublin'' (world_at 739257 16))
   \<and> ledger_file (snd (main ((example_env [plain_task] False False)\<lparr>create_event := (\<lambda>_. Inr True)\<rparr>)
            ''Europe/Dublin'' (world_at 739257 16)))
     = ledger_file (snd (main (example_env [plain_task] False False) ''Europe/Dublin''
            (world_at 739257 16)))
   \<and> ''m1'' \<notin> load_processed_email_ids
        (snd (main (example_env [plain_task] False False) ''Europe/Dublin'' (world_at 739257 16)))"
    using t c n m
      commit_ignores_create_event_result [OF r, where tz="''Europe/Dublin''"
        and w="world_at 739257 16" and i="''m1''"]
    by blast
  have r': "\<forall>ev. raised (create_event raising_env ev) = raised (create_event raising_env ev)"
    by simp
  have s': "search_messages raising_env = Inr [''m1'']"
    and mk: "mark_message_as_read raising_env ''m1'' = Inr True"
    and g: "get_message raising_env ''m1'' = Inr (Some ())"
    and d: "download_attachments raising_env () = Inr [''note.pdf'']"
    by (simp_all add: raising_env_def example_env_def)
  have c': "\<forall>ids. search_messages raising_env = Inr ids \<longrightarrow> (\<forall>j\<in>set ids. clean_id j)"
    using s' k by simp
  have ct: "collect_tasks raising_env [''note.pdf''] = Inr [plain_task, rent_task]"
    by (simp add: raising_env_def eval_defs)
  have mem: "rent_task \<in> set [plain_task, rent_task]" by simp
  have h: "\<forall>ev. event_of_task ''Europe/Dublin'' rent_task ev
             \<longrightarrow> raised (create_event raising_env ev) \<noteq> None"
    by (simp add: event_of_task_def rent_task_def raising_env_def raised_def)
  have cc: "fst (create_calendar_events_from_tasks raising_env [plain_task, rent_task]
            ''Europe/Dublin'' (world_at 739257 16)) = Some (Raised ''HttpError'')"
    by (simp add: raising_env_def rent_task_def eval_defs)
  have second: "''m1'' \<notin> load_processed_email_ids
        (snd (main raising_env ''Europe/Dublin'' (world_at 739257 16)))
    \<and> fst (process_message raising_env ''Europe/Dublin'' ''m1'' (world_at 739257 16))
       = Some (Raised ''HttpError'')
    \<and> ledger_file (snd (process_message raising_env ''Europe/Dublin'' ''m1'' (world_at 739257 16)))
       = ledger_file (world_at 739257 16)"
    using t c' n g d ct mem h cc
      commit_ignores_create_event_result [OF r', where tz="''Europe/Dublin''"
        and w="world_at 739257 16" and i="''m1''" and m="()" and ps="[''note.pdf'']"
        and ts="[plain_task, rent_task]" and t=rent_task and w'="world_at 739257 16"
        and e="Raised ''HttpError''"]
    by blast
  show ?thesis
    using r t s k n m first s' mk g d ct mem cc second by blast
qed

text \<open>
  C2 as stated fails: the e-mail \<^verbatim>\<open>m1\<close> yields two tasks, \<^verbatim>\<open>create_event\<close> returns true
  for the first and false for the second, and the run still writes \<^verbatim>\<open>m1\<close> to the
  ledger, because marking the e-mail as read succeeds.
\<close>

theorem partial_failure_commits_counterexample:
  "collect_tasks partial_failure_env [''note.pdf''] = Inr [plain_task, rent_task]
   \<and> map snd (calendar (snd (main partial_failure_env ''Europe/Dublin'' (world_at 739257 16))))
       = [True, False]
   \<and> ''m1'' \<in> load_processed_email_ids
        (snd (main partial_failure_env ''Europe/Dublin'' (world_at 739257 16)))"
  by (simp add: partial_failure_env_def rent_task_def eval_defs)

subsection \<open>A run leaves the e-mails of the ledger alone\<close>

lemma resolve_window_search:
  "resolve_window (env\<lparr>search_messages := x\<rparr>) t w = resolve_window env t w"
  by (simp add: resolve_window_def cong: option.case_cong pydate.case_cong)

lemma add_task_search:
  "add_task (env\<lparr>search_messages := x\<rparr>) tz t w = add_task env tz t w"
  by (simp add: add_task_def resolve_window_search Let_def split: prod.splits sum.splits)

lemma add_tasks_search:
  "add_tasks (env\<lparr>search_messages := x\<rparr>) tz ts w = add_tasks env tz ts w"
  by (induction ts arbitrary: w) (simp_all add: add_task_search cong: prod.case_cong option.case_cong)

lemma create_calendar_events_search:
  "create_calendar_events_from_tasks (env\<lparr>search_messages := x\<rparr>) ts tz w =
   create_calendar_events_from_tasks env ts tz w"
  by (simp add: create_calendar_events_from_tasks_def add_tasks_search)

lemma process_content_for_tasks_search:
  "process_content_for_tasks (env\<lparr>search_messages := x\<rparr>) text = process_content_for_tasks env text"
  by (simp add: process_content_for_tasks_def)

lemma tasks_from_attachments_search:
  "tasks_from_attachments (env\<lparr>search_messages := x\<rparr>) ps = tasks_from_attachments env ps"
  by (induction ps)
    (simp_all add: process_content_for_tasks_search cong: sum.case_cong option.case_cong)

lemma collect_tasks_search:
  "collect_tasks (env\<lparr>search_messages := x\<rparr>) ps = collect_tasks env ps"
  by (simp add: collect_tasks_def tasks_from_attachments_search)

lemma process_message_search:
  "process_message (env\<lparr>search_messages := x\<rparr>) tz i w = process_message env tz i w"
  by (simp add: process_message_def collect_tasks_search create_calendar_events_search
      split: sum.splits option.splits prod.splits bool.splits)

lemma process_messages_search:
  "process_messages (env\<lparr>search_messages := x\<rparr>) tz ids w = process_messages env tz ids w"
  by (induction ids arbitrary: w)
    (simp_all add: process_message_search cong: prod.case_cong option.case_cong)

lemma new_message_ids_removeAll:
  "i \<in> load_processed_email_ids w \<Longrightarrow>
   new_message_ids (removeAll i ids) w = new_message_ids ids w"
  by (induction ids) (auto simp: new_message_ids_def)

lemma main_skips_ledger_id:
  assumes "i \<in> load_processed_email_ids w"
  shows "main (env\<lparr>search_messages := map_sum id (removeAll i) (search_messages env)\<rparr>) tz w
         = main env tz w"
  using assms
  by (cases "search_messages env")
    (simp_all add: main_def process_messages_search new_message_ids_removeAll)

lemma main_nothing_new:
  assumes "\<forall>ids. search_messages env = Inr ids \<longrightarrow> set ids \<subseteq> load_processed_email_ids w"
  shows "snd (main env tz w) = w"
proof (cases "search_messages env")
  case (Inl e)
  then show ?thesis by (simp add: main_def)
next
  case (Inr ids)
  then have "new_message_ids ids w = []"
    using assms by (auto simp: new_message_ids_def filter_empty_conv)
  then show ?thesis using Inr by (simp add: main_def)
qed

text \<open>
  C1 (run-level idempotency): if \<open>msg_id\<close> is in the ledger after a first run, a second
  run over the same candidates does not have it among the ids it processes, behaves
  exactly as a run from whose candidates \<open>msg_id\<close> has been removed (so it makes no
  \<^verbatim>\<open>create_event\<close> call for it), and changes nothing at all when every candidate is
  in the ledger. The second run may use other collaborators and another time zone.
\<close>

theorem rerun_skips_committed_item:
  assumes "msg_id \<in> load_processed_email_ids (snd (main env tz w))"
    and "search_messages env' = search_messages env"
  shows "(\<forall>ids. search_messages env = Inr ids \<longrightarrow>
            msg_id \<notin> set (new_message_ids ids (snd (main env tz w))))
         \<and> main env' tz' (snd (main env tz w)) =
             main (env'\<lparr>search_messages := map_sum id (removeAll msg_id) (search_messages env)\<rparr>)
               tz' (snd (main env tz w))
         \<and> ((\<forall>ids. search_messages env = Inr ids \<longrightarrow>
                set ids \<subseteq> load_processed_email_ids (snd (main env tz w)))
             \<longrightarrow> snd (main env' tz' (snd (main env tz w))) = snd (main env tz w))"
proof (intro conjI allI impI)
  fix ids
  show "msg_id \<notin> set (new_message_ids ids (snd (main env tz w)))"
    using assms(1) by (simp add: new_message_ids_def)
next
  show "main env' tz' (snd (main env tz w)) =
        main (env'\<lparr>search_messages := map_sum id (removeAll msg_id) (search_messages env)\<rparr>)
          tz' (snd (main env tz w))"
    using main_skips_ledger_id [OF assms(1), of env' tz'] assms(2) by simp
next
  assume "\<forall>ids. search_messages env = Inr ids \<longrightarrow>
                set ids \<subseteq> load_processed_email_ids (snd (main env tz w))"
  then have "\<forall>ids. search_messages env' = Inr ids \<longrightarrow>
                set ids \<subseteq> load_processed_email_ids (snd (main env tz w))"
    using assms(2) by simp
  then show "snd (main env' tz' (snd (main env tz w))) = snd (main env tz w)"
    by (rule main_nothing_new)
qed

theorem rerun_skips_committed_item_witness:
  "''m1'' \<in> load_processed_email_ids
      (snd (main (example_env [plain_task] True True) ''Europe/Dublin'' (world_at 739257 16)))
   \<and> length (calendar
      (snd (main (example_env [plain_task] True True) ''Europe/Dublin'' (world_at 739257 16)))) = 1
   \<and> snd (main (example_env [plain_task] True True) ''Europe/Dublin''
        (snd (main (example_env [plain_task] True True) ''Europe/Dublin'' (world_at 739257 16))))
     = snd (main (example_env [plain_task] True True) ''Europe/Dublin'' (world_at 739257 16))"
proof -
  have c: "''m1'' \<in> load_processed_email_ids
      (snd (main (example_env [plain_task] True True) ''Europe/Dublin'' (world_at 739257 16)))"
    by (simp add: eval_defs)
  have l: "length (calendar
      (snd (main (example_env [plain_task] True True) ''Europe/Dublin'' (world_at 739257 16)))) = 1"
    by (simp add: eval_defs)
  have a: "\<forall>ids. search_messages (example_env [plain_task] True True) = Inr ids \<longrightarrow>
            set ids \<subseteq> load_processed_email_ids
              (snd (main (example_env [plain_task] True True) ''Europe/Dublin'' (world_at 739257 16)))"
    using c by (simp add: example_env_def)
  show ?thesis
    using c l a
      rerun_skips_committed_item [OF c refl, of "''Europe/Dublin''"]
    by blast
qed

end
